theory Spec2Isabelle
  imports Main "HOL-Library.Sublist"
begin

section \<open>Python strings and numbers used by both scripts\<close>

text \<open>
  Python strings are modelled as \<open>string\<close>. The string methods the scripts call are
  written out: \<open>str.split(sep)\<close> with a one-character separator, \<open>str.startswith\<close>,
  \<open>str.endswith\<close>, \<open>str.replace\<close> of one character by another, and \<open>str(n)\<close> for the
  integers that the f-strings format.
\<close>

fun split_on :: "char \<Rightarrow> string \<Rightarrow> string list" where
  "split_on c [] = [[]]"
| "split_on c (x # xs) =
     (if x = c then [] # split_on c xs
      else (x # hd (split_on c xs)) # tl (split_on c xs))"

definition startswith :: "string \<Rightarrow> string \<Rightarrow> bool" where
  "startswith s p = (take (length p) s = p)"

definition endswith :: "string \<Rightarrow> string \<Rightarrow> bool" where
  "endswith s p = (length p \<le> length s \<and> drop (length s - length p) s = p)"


definition digit_char :: "nat \<Rightarrow> char" where
  "digit_char d = ''0123456789'' ! d"

fun str_of_nat :: "nat \<Rightarrow> string" where
  "str_of_nat n = (if n < 10 then [digit_char n] else str_of_nat (n div 10) @ [digit_char (n mod 10)])"

declare str_of_nat.simps [simp del]

definition str_of_int :: "int \<Rightarrow> string" where
  "str_of_int i = (if i < 0 then CHR ''-'' # str_of_nat (nat (- i)) else str_of_nat (nat i))"

text \<open>\<open>os.path.join\<close> of two components and \<open>os.path.basename\<close>, on POSIX paths.\<close>

definition path_join :: "string \<Rightarrow> string \<Rightarrow> string" where
  "path_join a b =
     (if startswith b ''/'' then b
      else if a = [] \<or> endswith a ''/'' then a @ b
      else a @ ''/'' @ b)"

definition basename :: "string \<Rightarrow> string" where
  "basename p = rev (takeWhile (\<lambda>c. c \<noteq> CHR ''/'') (rev p))"

text \<open>
  \<open>float\<close>, \<open>int\<close>, float arithmetic and the formatting of a float are builtins of the
  Python runtime, not code of the scripts. They are taken as a parameter: a record of the
  operations over an arbitrary carrier \<open>'f\<close> of float values. \<open>float_of_str\<close> and
  \<open>int_of_str\<close> return \<open>None\<close> where Python raises \<open>ValueError\<close>. In \<open>x * 3600\<close> with a
  float \<open>x\<close> Python converts the integer literal to a float first, which is
  \<open>fmul x (float_of_int 3600)\<close> here.
\<close>

record 'f builtins =
  float_of_str :: "string \<Rightarrow> 'f option"
  int_of_str :: "string \<Rightarrow> int option"
  float_of_int :: "int \<Rightarrow> 'f"
  fmul :: "'f \<Rightarrow> 'f \<Rightarrow> 'f"
  fadd :: "'f \<Rightarrow> 'f \<Rightarrow> 'f"
  str_of_float :: "'f \<Rightarrow> string"

text \<open>
  An instance for evaluating the scripts on concrete inputs. It reads unsigned decimal
  integer literals only and holds their values exactly, as \<open>int\<close>; every other string is
  rejected. On these literals Python's \<open>float\<close> and \<open>int\<close> read the same values, float
  arithmetic on them is exact below \<open>2^53\<close>, and \<open>str\<close> of an integral float below
  \<open>10^16\<close> is its decimal digits followed by \<open>.0\<close>.
\<close>

definition is_digit :: "char \<Rightarrow> bool" where
  "is_digit c = (48 \<le> (of_char c :: nat) \<and> (of_char c :: nat) \<le> 57)"

definition nat_of_digits :: "string \<Rightarrow> nat option" where
  "nat_of_digits s =
     (if s \<noteq> [] \<and> list_all is_digit s
      then Some (foldl (\<lambda>a c. 10 * a + (of_char c - 48)) 0 s) else None)"

definition decimal_builtins :: "int builtins" where
  "decimal_builtins =
     \<lparr> float_of_str = (\<lambda>s. map_option int (nat_of_digits s)),
       int_of_str = (\<lambda>s. map_option int (nat_of_digits s)),
       float_of_int = (\<lambda>i. i),
       fmul = (\<lambda>a b. a * b),
       fadd = (\<lambda>a b. a + b),
       str_of_float = (\<lambda>v. str_of_int v @ ''.0'') \<rparr>"

section \<open>Exceptions\<close>

text \<open>
  The exceptions that the scripts raise or let through. \<open>RuntimeError msg cause\<close> is
  \<open>RuntimeError(f"msg: {e}")\<close> for the caught exception \<open>e\<close>.
\<close>

datatype exn =
    OSError
  | CsvError
  | IndexError
  | UnpackError nat
  | IntValueError string
  | FloatValueError string
  | CalledProcessError int
  | RuntimeError string exn

section \<open>add-text-to-vid.py: the Time Parser\<close>

fun floats_of :: "'f builtins \<Rightarrow> string list \<Rightarrow> exn + 'f list" where
  "floats_of B [] = Inr []"
| "floats_of B (part # rest) =
     (case float_of_str B part of
        None \<Rightarrow> Inl (FloatValueError part)
      | Some v \<Rightarrow> (case floats_of B rest of Inl e \<Rightarrow> Inl e | Inr vs \<Rightarrow> Inr (v # vs)))"

definition convert_to_seconds :: "'f builtins \<Rightarrow> string \<Rightarrow> exn + 'f" where
  "convert_to_seconds B time_str =
     (case floats_of B (split_on CHR '':'' time_str) of
        Inl e \<Rightarrow> Inl e
      | Inr parts \<Rightarrow>
          (if length parts = 3 then
             Inr (fadd B (fadd B (fmul B (parts ! 0) (float_of_int B 3600))
                                 (fmul B (parts ! 1) (float_of_int B 60)))
                         (parts ! 2))
           else if length parts = 2 then
             Inr (fadd B (fmul B (parts ! 0) (float_of_int B 60)) (parts ! 1))
           else
             (case parts of [] \<Rightarrow> Inl IndexError | p # _ \<Rightarrow> Inr p)))"

section \<open>add-text-to-vid.py: the Instruction Parser\<close>

text \<open>
  One parsed row: the dictionary that \<open>parse_text_file\<close> appends, with the key \<open>text\<close>
  named \<open>overlay_text\<close>.
\<close>

record overlay =
  start_time :: string
  end_time :: string
  overlay_text :: string
  position :: "int \<times> int"
  font :: string
  font_size :: int

text \<open>
  The body of the \<open>for row in reader\<close> loop. \<open>row[0]\<close> is evaluated before \<open>not row\<close>, so
  an empty row raises \<open>IndexError\<close>. The unpacking of a row into seven names raises
  \<open>ValueError\<close> unless the row has exactly seven fields; \<open>int(x)\<close>, \<open>int(y)\<close> and
  \<open>int(size)\<close> are evaluated in this order. \<open>Inr None\<close> is \<open>continue\<close>.
\<close>

definition parse_row :: "'f builtins \<Rightarrow> string list \<Rightarrow> exn + overlay option" where
  "parse_row B row =
     (case row of
        [] \<Rightarrow> Inl IndexError
      | first # _ \<Rightarrow>
          if startswith first ''#'' \<or> row = [] then Inr None
          else if length row \<noteq> 7 then Inl (UnpackError (length row))
          else
            (case int_of_str B (row ! 3) of
               None \<Rightarrow> Inl (IntValueError (row ! 3))
             | Some x \<Rightarrow>
                 (case int_of_str B (row ! 4) of
                    None \<Rightarrow> Inl (IntValueError (row ! 4))
                  | Some y \<Rightarrow>
                      (case int_of_str B (row ! 6) of
                         None \<Rightarrow> Inl (IntValueError (row ! 6))
                       | Some sz \<Rightarrow>
                           Inr (Some \<lparr> start_time = row ! 0, end_time = row ! 1,
                                      overlay_text = row ! 2, position = (x, y),
                                      font = row ! 5, font_size = sz \<rparr>)))))"

fun parse_rows :: "'f builtins \<Rightarrow> string list list \<Rightarrow> overlay list \<Rightarrow> exn + overlay list" where
  "parse_rows B [] texts = Inr texts"
| "parse_rows B (row # rest) texts =
     (case parse_row B row of
        Inl e \<Rightarrow> Inl e
      | Inr None \<Rightarrow> parse_rows B rest texts
      | Inr (Some t) \<Rightarrow> parse_rows B rest (texts @ [t]))"

text \<open>
  What \<open>open\<close> and \<open>csv.reader\<close> deliver for a path: the file cannot be opened, or the
  reader yields rows (each a list of fields; a blank line is the empty list) and then
  ends, or it yields rows and then raises (a decoding or \<open>csv.Error\<close>).
\<close>

datatype csv_read = CannotOpen | Rows "string list list" | RowsThenError "string list list"

text \<open>
  The environment of a run: the instruction files, the name of the temporary directory
  that \<open>tempfile.TemporaryDirectory\<close> creates, the exit status of the k-th
  \<open>subprocess.run\<close> call of the process (counted from 0), and what \<open>os.walk\<close> yields for a
  directory (each directory with its file names). Files are not path strings: \<open>realpath\<close>
  gives the file that a path names, so that two paths can name one file. The scripts hand
  command strings to \<open>sh -c\<close> (\<open>shell=True\<close>): \<open>sh_writes\<close> gives the files that running a
  command string creates or writes. \<open>mkdir_ok\<close> tells whether \<open>Path(d).mkdir(exist_ok=True)\<close>
  succeeds for a directory.
\<close>

record world =
  read_csv :: "string \<Rightarrow> csv_read"
  tmpdirname :: string
  returncode :: "nat \<Rightarrow> int"
  walk :: "string \<Rightarrow> (string \<times> string list) list"
  realpath :: "string \<Rightarrow> string"
  sh_writes :: "string \<Rightarrow> string set"
  mkdir_ok :: "string \<Rightarrow> bool"

definition parse_text_file :: "'f builtins \<Rightarrow> world \<Rightarrow> string \<Rightarrow> exn + overlay list" where
  "parse_text_file B W file_path =
     (case (case read_csv W file_path of
              CannotOpen \<Rightarrow> Inl OSError
            | Rows rows \<Rightarrow> parse_rows B rows []
            | RowsThenError rows \<Rightarrow>
                (case parse_rows B rows [] of Inl e \<Rightarrow> Inl e | Inr _ \<Rightarrow> Inl CsvError)) of
        Inl e \<Rightarrow> Inl (RuntimeError ''Error parsing text file'' e)
      | Inr texts \<Rightarrow> Inr texts)"

section \<open>add-text-to-vid.py: the Command Builder\<close>

definition generate_ffmpeg_command ::
  "'f builtins \<Rightarrow> string \<Rightarrow> string \<Rightarrow> overlay \<Rightarrow> string \<Rightarrow> exn + string" where
  "generate_ffmpeg_command B input_video text_file text_dict output_video =
     (case convert_to_seconds B (start_time text_dict) of
        Inl e \<Rightarrow> Inl e
      | Inr start_time_seconds \<Rightarrow>
          (case convert_to_seconds B (end_time text_dict) of
             Inl e \<Rightarrow> Inl e
           | Inr end_time_seconds \<Rightarrow>
               (let filter_string =
                      ''drawtext=fontfile=/usr/share/fonts/truetype/'' @ font text_dict @ ''.ttf: ''
                      @ ''textfile='' @ [CHR 0x27] @ text_file @ [CHR 0x27]
                      @ '': x='' @ str_of_int (fst (position text_dict))
                      @ '': y='' @ str_of_int (snd (position text_dict)) @ '': ''
                      @ ''fontsize='' @ str_of_int (font_size text_dict) @ '': fontcolor=white: ''
                      @ ''enable='' @ [CHR 0x27] @ ''between(t,'' @ str_of_float B start_time_seconds
                      @ '','' @ str_of_float B end_time_seconds @ '')'' @ [CHR 0x27];
                    command =
                      ''ffmpeg -i '' @ input_video @ '' -filter:v '' @ [CHR 0x22] @ filter_string
                      @ [CHR 0x22] @ '' '' @ ''-codec:a copy '' @ output_video
                in Inr command)))"

section \<open>add-text-to-vid.py: the Overlay Compositor\<close>

text \<open>
  What a run does to the outside, in order: \<open>Copy src dst\<close> is
  \<open>subprocess.run(f"cp {src} {dst}")\<close>, \<open>WriteText path s\<close> writes \<open>s\<close> to a new file,
  \<open>RunFfmpeg src dst command\<close> is \<open>run_ffmpeg(command)\<close> for the command generated with
  source \<open>src\<close> and destination \<open>dst\<close>. An action is recorded when it is attempted,
  whatever its exit status. Logging is not modelled. Creating the temporary directory and
  writing the text files are taken to succeed.
\<close>

datatype action =
    Copy string string
  | WriteText string string
  | RunFfmpeg string string string

fun is_subprocess :: "action \<Rightarrow> bool" where
  "is_subprocess (Copy _ _) = True"
| "is_subprocess (WriteText _ _) = False"
| "is_subprocess (RunFfmpeg _ _ _) = True"

fun is_ffmpeg :: "action \<Rightarrow> bool" where
  "is_ffmpeg (RunFfmpeg _ _ _) = True"
| "is_ffmpeg _ = False"

fun is_copy :: "action \<Rightarrow> bool" where
  "is_copy (Copy _ _) = True"
| "is_copy _ = False"

text \<open>
  The command string of a copy, and the files that an action creates or writes: what the
  shell does with the command string of a copy or of an invocation, and the file that
  the path of a text file names.
\<close>

definition copy_command :: "string \<Rightarrow> string \<Rightarrow> string" where
  "copy_command src dst = ''cp '' @ src @ '' '' @ dst"

fun files_written :: "world \<Rightarrow> action \<Rightarrow> string set" where
  "files_written W (Copy src dst) = sh_writes W (copy_command src dst)"
| "files_written W (WriteText path s) = {realpath W path}"
| "files_written W (RunFfmpeg src dst command) = sh_writes W command"

definition calls :: "action list \<Rightarrow> nat" where
  "calls tr = length (filter is_subprocess tr)"

text \<open>
  How \<open>main\<close> ends: it returns (the interpreter exits with status 0) or an exception
  leaves it (the interpreter prints the traceback and exits with status 1).
\<close>

datatype outcome = Returned | Raised exn

fun exit_status :: "outcome \<Rightarrow> int" where
  "exit_status Returned = 0"
| "exit_status (Raised e) = 1"

definition run_ffmpeg :: "world \<Rightarrow> action list \<Rightarrow> string \<Rightarrow> string \<Rightarrow> string \<Rightarrow> (exn + unit) \<times> action list" where
  "run_ffmpeg W tr src dst command =
     (if returncode W (calls tr) = 0 then (Inr (), tr @ [RunFfmpeg src dst command])
      else (Inl (RuntimeError ''FFmpeg command failed'' (CalledProcessError (returncode W (calls tr)))),
            tr @ [RunFfmpeg src dst command]))"

definition text_path :: "world \<Rightarrow> nat \<Rightarrow> string" where
  "text_path W idx = path_join (tmpdirname W) (''text_'' @ str_of_nat idx @ ''.txt'')"

definition step_output :: "world \<Rightarrow> nat \<Rightarrow> string" where
  "step_output W idx = tmpdirname W @ ''/temp_'' @ str_of_nat idx @ ''.mp4''"

text \<open>
  The \<open>for idx, text in enumerate(texts)\<close> loop, from counter \<open>idx\<close> on, with the current
  \<open>temp_video\<close> and the actions so far. It runs to the end (\<open>Completed\<close>, with the last
  \<open>temp_video\<close>) or leaves \<open>main\<close> (\<open>Stopped\<close>): by \<open>return\<close> when \<open>run_ffmpeg\<close> raised, or
  by the \<open>ValueError\<close> of a timestamp, which nothing catches.
\<close>

datatype loop_result = Completed string "action list" | Stopped outcome "action list"

fun overlay_loop ::
  "'f builtins \<Rightarrow> world \<Rightarrow> nat \<Rightarrow> overlay list \<Rightarrow> string \<Rightarrow> action list \<Rightarrow> loop_result" where
  "overlay_loop B W idx [] temp_video tr = Completed temp_video tr"
| "overlay_loop B W idx (text_dict # rest) temp_video tr =
     (let text_file_path = text_path W idx;
          tr1 = tr @ [WriteText text_file_path (overlay_text text_dict)]
      in case generate_ffmpeg_command B temp_video text_file_path text_dict (step_output W idx) of
           Inl e \<Rightarrow> Stopped (Raised e) tr1
         | Inr command \<Rightarrow>
             (case run_ffmpeg W tr1 temp_video (step_output W idx) command of
                (Inl e, tr2) \<Rightarrow> Stopped Returned tr2
              | (Inr _, tr2) \<Rightarrow> overlay_loop B W (Suc idx) rest (step_output W idx) tr2))"

record args =
  input_video :: string
  text_file :: string
  output_video :: string

definition main :: "'f builtins \<Rightarrow> world \<Rightarrow> args \<Rightarrow> outcome \<times> action list" where
  "main B W a =
     (case parse_text_file B W (text_file a) of
        Inl e \<Rightarrow> (Returned, [])
      | Inr texts \<Rightarrow>
          (let temp_video = path_join (tmpdirname W) ''temp.mp4'';
               tr0 = [Copy (input_video a) temp_video]
           in if returncode W 0 \<noteq> 0 then
                (Raised (RuntimeError ''Failed to copy input video'' (CalledProcessError (returncode W 0))), tr0)
              else
                (case overlay_loop B W 0 texts temp_video tr0 of
                   Stopped oc tr \<Rightarrow> (oc, tr)
                 | Completed last_video tr \<Rightarrow>
                     (if returncode W (calls tr) \<noteq> 0 then
                        (Raised (RuntimeError ''Failed to save output video''
                                   (CalledProcessError (returncode W (calls tr)))),
                         tr @ [Copy last_video (output_video a)])
                      else (Returned, tr @ [Copy last_video (output_video a)])))))"

section \<open>preview-fonts.py\<close>


definition font_name_of :: "string \<Rightarrow> string" where
  "font_name_of font_path = hd (split_on CHR ''.'' (basename font_path))"


text \<open>
  What the preview script does to the outside: it creates the output directory, runs
  commands and prints lines. \<open>PrintFailed name e\<close> is the line
  \<open>Failed to create preview for {name}: {e}\<close>, \<open>PrintCreated name\<close> the line
  \<open>Created preview for {name}\<close>. \<open>Path(output_dir).mkdir(exist_ok=True)\<close> is outside any
  \<open>try\<close>: when it fails, \<open>OSError\<close> leaves \<open>main\<close>.
\<close>

datatype preview_action =
    Mkdir string
  | Subprocess string
  | PrintFailed string exn
  | PrintCreated string

fun is_run :: "preview_action \<Rightarrow> bool" where
  "is_run (Subprocess _) = True"
| "is_run _ = False"

definition runs :: "preview_action list \<Rightarrow> nat" where
  "runs tr = length (filter is_run tr)"




section \<open>Notions used to state the properties\<close>

text \<open>
  A comment row is a row whose first field begins with \<open>#\<close>. A malformed row is a row that
  is no comment and has a field count other than seven or an x, y or font-size field that
  \<open>int\<close> rejects.
\<close>

definition is_comment :: "string list \<Rightarrow> bool" where
  "is_comment row = (row \<noteq> [] \<and> startswith (hd row) ''#'')"

definition malformed :: "'f builtins \<Rightarrow> string list \<Rightarrow> bool" where
  "malformed B row =
     (\<not> is_comment row \<and>
      (length row \<noteq> 7 \<or> int_of_str B (row ! 3) = None \<or> int_of_str B (row ! 4) = None \<or>
       int_of_str B (row ! 6) = None))"

text \<open>The entry that a well-formed row stands for.\<close>

definition entry_of :: "'f builtins \<Rightarrow> string list \<Rightarrow> overlay" where
  "entry_of B row =
     \<lparr> start_time = row ! 0, end_time = row ! 1, overlay_text = row ! 2,
       position = (the (int_of_str B (row ! 3)), the (int_of_str B (row ! 4))),
       font = row ! 5, font_size = the (int_of_str B (row ! 6)) \<rparr>"

text \<open>
  The Working Video Reference before step \<open>i\<close>: the temporary copy of the input video
  before step 0, the output of step \<open>i\<close> before step \<open>i + 1\<close>. An entry has valid
  timestamps when \<open>convert_to_seconds\<close> reads both. \<open>step_command\<close> is the command of step
  \<open>i\<close>, \<open>step_actions\<close> what a successful step \<open>i\<close> does.
\<close>

fun working :: "world \<Rightarrow> nat \<Rightarrow> string" where
  "working W 0 = path_join (tmpdirname W) ''temp.mp4''"
| "working W (Suc i) = step_output W i"

definition times_ok :: "'f builtins \<Rightarrow> overlay \<Rightarrow> bool" where
  "times_ok B t =
     (case convert_to_seconds B (start_time t) of
        Inl _ \<Rightarrow> False
      | Inr _ \<Rightarrow> (case convert_to_seconds B (end_time t) of Inl _ \<Rightarrow> False | Inr _ \<Rightarrow> True))"

definition step_command :: "'f builtins \<Rightarrow> world \<Rightarrow> nat \<Rightarrow> overlay \<Rightarrow> string" where
  "step_command B W i t =
     (case generate_ffmpeg_command B (working W i) (text_path W i) t (step_output W i) of
        Inl _ \<Rightarrow> [] | Inr command \<Rightarrow> command)"

definition step_actions :: "'f builtins \<Rightarrow> world \<Rightarrow> nat \<Rightarrow> overlay \<Rightarrow> action list" where
  "step_actions B W i t =
     [WriteText (text_path W i) (overlay_text t),
      RunFfmpeg (working W i) (step_output W i) (step_command B W i t)]"

text \<open>
  A plain string is not empty and has letters, digits and \<open>. _ - / +\<close> only: nothing that
  the shell or the filter syntax of the tool gives a meaning to. \<open>ffmpeg_template\<close> is the
  text of a command of the Command Builder with its nine variable parts: three paths, the
  font name and five formatted numbers. The tools behave
  in a world when, for plain parts, a copy writes no file but the one its destination
  names and an invocation writes no file but the one its output path names. The temporary
  directory is fresh for a path when no path into the directory names the same file.
\<close>

definition plain_alphabet :: string where
  "plain_alphabet = ''abcdefghijklmnopqrstuvwxyzABCDEFGHIJKLMNOPQRSTUVWXYZ0123456789._-/+''"

definition plain_chars :: "string \<Rightarrow> bool" where
  "plain_chars s = list_all (\<lambda>c. c \<in> set plain_alphabet) s"

definition plain :: "string \<Rightarrow> bool" where
  "plain s = (s \<noteq> [] \<and> plain_chars s)"

type_synonym path = string

type_synonym formatted = string

definition ffmpeg_template ::
  "path \<Rightarrow> string \<Rightarrow> path \<Rightarrow> formatted \<Rightarrow> formatted \<Rightarrow> formatted \<Rightarrow> formatted \<Rightarrow> formatted \<Rightarrow> path \<Rightarrow> string" where
  "ffmpeg_template iv fnt tf x y fs s e ov =
     ''ffmpeg -i '' @ iv @ '' -filter:v '' @ [CHR 0x22]
     @ ''drawtext=fontfile=/usr/share/fonts/truetype/'' @ fnt @ ''.ttf: textfile=''
     @ [CHR 0x27] @ tf @ [CHR 0x27] @ '': x='' @ x @ '': y='' @ y @ '': fontsize='' @ fs
     @ '': fontcolor=white: enable='' @ [CHR 0x27] @ ''between(t,'' @ s @ '','' @ e @ '')''
     @ [CHR 0x27] @ [CHR 0x22] @ '' -codec:a copy '' @ ov"

definition tools_behave :: "world \<Rightarrow> bool" where
  "tools_behave W =
     ((\<forall>src dst. plain src \<and> plain dst \<longrightarrow>
          sh_writes W (copy_command src dst) \<subseteq> {realpath W dst}) \<and>
      (\<forall>iv fnt tf x y fs s e ov.
          plain iv \<and> plain fnt \<and> plain tf \<and> plain x \<and> plain y \<and> plain fs \<and> plain s \<and> plain e \<and>
          plain ov \<longrightarrow>
          sh_writes W (ffmpeg_template iv fnt tf x y fs s e ov) \<subseteq> {realpath W ov}))"

definition fresh_tmp :: "world \<Rightarrow> string \<Rightarrow> bool" where
  "fresh_tmp W p = (\<forall>q. prefix (tmpdirname W) q \<longrightarrow> realpath W q \<noteq> realpath W p)"

text \<open>
  What the loop does: it writes the text file of a step, or it invokes the tool with a
  command that the Command Builder produced for an entry of the file, from the Working
  Video Reference of a step to the output of that step.
\<close>

definition loop_action :: "'f builtins \<Rightarrow> world \<Rightarrow> overlay set \<Rightarrow> action \<Rightarrow> bool" where
  "loop_action B W T x =
     (case x of
        Copy src dst \<Rightarrow> False
      | WriteText path s \<Rightarrow> (\<exists>j. path = text_path W j)
      | RunFfmpeg src dst command \<Rightarrow>
          (\<exists>j t. t \<in> T \<and> src = working W j \<and> dst = step_output W j \<and>
                 generate_ffmpeg_command B src (text_path W j) t dst = Inr command))"

text \<open>Strings joined by a separator character.\<close>

fun join_with :: "char \<Rightarrow> string list \<Rightarrow> string" where
  "join_with c [] = []"
| "join_with c [s] = s"
| "join_with c (s # t # ts) = s @ c # join_with c (t # ts)"


text \<open>The number of places of a string at which a given string occurs.\<close>

fun occurrences :: "string \<Rightarrow> string \<Rightarrow> nat" where
  "occurrences p [] = (if p = [] then 1 else 0)"
| "occurrences p (x # xs) = (if prefix p (x # xs) then 1 else 0) + occurrences p xs"

text \<open>The row \<open>00:00:00,00:00:05,"Hello",10,20,Arial,24\<close> and the entry parsed from it.\<close>

definition hello_row :: "string list" where
  "hello_row = [''00:00:00'', ''00:00:05'', ''Hello'', ''10'', ''20'', ''Arial'', ''24'']"

definition hello :: overlay where
  "hello = \<lparr> start_time = ''00:00:00'', end_time = ''00:00:05'', overlay_text = ''Hello'',
             position = (10, 20), font = ''Arial'', font_size = 24 \<rparr>"

text \<open>A second row and its entry, and a file of two entries with a comment line between them.\<close>

definition bye_row :: "string list" where
  "bye_row = [''01:10'', ''02:00'', ''Bye, now'', ''5'', ''7'', ''DejaVuSans'', ''12'']"

definition bye :: overlay where
  "bye = \<lparr> start_time = ''01:10'', end_time = ''02:00'', overlay_text = ''Bye, now'',
           position = (5, 7), font = ''DejaVuSans'', font_size = 12 \<rparr>"

definition two_entries :: csv_read where
  "two_entries = Rows [hello_row, [''# second overlay''], bye_row]"

text \<open>A file of three entries, and exit statuses that are 0 except at call \<open>n\<close>.\<close>

definition three_entries :: csv_read where
  "three_entries = Rows [hello_row, bye_row, hello_row]"

definition fails_at :: "nat \<Rightarrow> nat \<Rightarrow> int" where
  "fails_at n k = (if k = n then 1 else 0)"


text \<open>
  Rows that parse and whose font field carries more than a font name: one closes the font
  file option and adds an inline text and a second filter, two hold a command
  substitution of the shell. A row with a timestamp that is not numeric.
\<close>

definition two_filters_row :: "string list" where
  "two_filters_row =
     [''00:00:00'', ''00:00:05'', ''Hello'', ''10'', ''20'',
      ''A.ttf:text=INLINED,drawtext=fontfile=/usr/share/fonts/truetype/B'', ''24'']"

definition two_filters :: overlay where
  "two_filters = hello \<lparr> font := ''A.ttf:text=INLINED,drawtext=fontfile=/usr/share/fonts/truetype/B'' \<rparr>"

definition clobber_in_row :: "string list" where
  "clobber_in_row = [''00:00:00'', ''00:00:05'', ''Hello'', ''10'', ''20'', ''$(cp /dev/null in.mp4)'', ''24'']"

definition clobber_in :: overlay where
  "clobber_in = hello \<lparr> font := ''$(cp /dev/null in.mp4)'' \<rparr>"

definition clobber_out_row :: "string list" where
  "clobber_out_row = [''00:00:00'', ''00:00:05'', ''Hello'', ''10'', ''20'', ''$(cp /dev/null out.mp4)'', ''24'']"

definition clobber_out :: overlay where
  "clobber_out = hello \<lparr> font := ''$(cp /dev/null out.mp4)'' \<rparr>"

definition bad_time_row :: "string list" where
  "bad_time_row = [''00:00:01'', ''1:x'', ''Hi'', ''1'', ''2'', ''Arial'', ''10'']"

text \<open>
  A file system and a shell for concrete runs. A leading \<open>./\<close> of a path is dropped, so
  that \<open>./video.mp4\<close> and \<open>video.mp4\<close> name one file. The shell runs \<open>cp\<close> and the tool,
  which write the file that the last word of the command names, and before that it
  performs every command substitution \<open>$(cp ...)\<close> in the command string (also inside
  double quotes, as \<open>sh\<close> does), which writes the file that its last word names.
\<close>

definition last_word :: "string \<Rightarrow> string" where
  "last_word s = rev (takeWhile (\<lambda>c. c \<noteq> CHR '' '') (rev s))"

fun substituted_cps :: "string \<Rightarrow> string list" where
  "substituted_cps [] = []"
| "substituted_cps (x # xs) =
     (if prefix ''$(cp '' (x # xs)
      then takeWhile (\<lambda>c. c \<noteq> CHR 0x29) (drop 2 (x # xs)) # substituted_cps xs
      else substituted_cps xs)"

definition demo_realpath :: "string \<Rightarrow> string" where
  "demo_realpath p = (if prefix ''./'' p then drop 2 p else p)"

definition demo_sh_writes :: "string \<Rightarrow> string set" where
  "demo_sh_writes command =
     demo_realpath ` set (last_word command # map last_word (substituted_cps command))"

text \<open>
  A world for concrete runs: one instruction file whatever the path, a temporary
  directory \<open>/tmp/tmpab12cd\<close>, the given exit statuses and the given directory tree, the
  file system and the shell above, and an output directory that can be created.
\<close>

definition demo_world :: "csv_read \<Rightarrow> (nat \<Rightarrow> int) \<Rightarrow> (string \<times> string list) list \<Rightarrow> world" where
  "demo_world file rc tree =
     \<lparr> read_csv = (\<lambda>_. file), tmpdirname = ''/tmp/tmpab12cd'', returncode = rc, walk = (\<lambda>_. tree),
       realpath = demo_realpath, sh_writes = demo_sh_writes, mkdir_ok = (\<lambda>_. True) \<rparr>"

definition demo_args :: args where
  "demo_args = \<lparr> input_video = ''in.mp4'', text_file = ''texts.csv'', output_video = ''out.mp4'' \<rparr>"

definition alias_args :: args where
  "alias_args = \<lparr> input_video = ''video.mp4'', text_file = ''texts.csv'', output_video = ''./video.mp4'' \<rparr>"

section \<open>Properties of the string helpers\<close>

lemma split_on_nonempty: "split_on c s \<noteq> []"
  by (induction s) auto

lemma split_on_no_sep: "c \<notin> set p \<Longrightarrow> split_on c p = [p]"
  by (induction p) auto

lemma split_on_sep: "c \<notin> set p \<Longrightarrow> split_on c (p @ c # rest) = p # split_on c rest"
  by (induction p) auto

lemma floats_of_length: "floats_of B ps = Inr vs \<Longrightarrow> length vs = length ps"
  by (induction ps arbitrary: vs) (auto split: option.splits sum.splits)

lemma floats_of_hd:
  "floats_of B (p # ps) = Inr vs \<Longrightarrow> \<exists>v rest. vs = v # rest \<and> float_of_str B p = Some v"
  by (auto split: option.splits sum.splits)

lemma floats_of_all:
  "\<forall>p \<in> set ps. float_of_str B p \<noteq> None \<Longrightarrow> \<exists>vs. floats_of B ps = Inr vs"
  by (induction ps) (auto split: option.splits sum.splits)

lemma floats_of_Inl:
  "floats_of B ps = Inl e \<Longrightarrow> \<exists>q \<in> set ps. float_of_str B q = None \<and> e = FloatValueError q"
  by (induction ps) (auto split: option.splits sum.splits)

lemma floats_of_bad:
  assumes "p \<in> set ps" and "float_of_str B p = None"
  shows "\<exists>q \<in> set ps. float_of_str B q = None \<and> floats_of B ps = Inl (FloatValueError q)"
proof (cases "floats_of B ps")
  case (Inl e)
  then show ?thesis using floats_of_Inl [OF Inl] by auto
next
  case (Inr vs)
  have "\<And>vs. floats_of B ps = Inr vs \<Longrightarrow> \<forall>q \<in> set ps. float_of_str B q \<noteq> None"
    by (induction ps) (auto split: option.splits sum.splits)
  with Inr assms show ?thesis by blast
qed

lemma hd_split_on: "hd (split_on c s) = takeWhile (\<lambda>x. x \<noteq> c) s"
  by (induction s) auto

section \<open>The Time Parser\<close>

lemma convert_three:
  assumes "CHR '':'' \<notin> set h" and "CHR '':'' \<notin> set m" and "CHR '':'' \<notin> set s"
    and "float_of_str B h = Some fh" and "float_of_str B m = Some fm" and "float_of_str B s = Some fs"
  shows "convert_to_seconds B (h @ '':'' @ m @ '':'' @ s) =
           Inr (fadd B (fadd B (fmul B fh (float_of_int B 3600)) (fmul B fm (float_of_int B 60))) fs)"
proof -
  have "split_on CHR '':'' (h @ '':'' @ m @ '':'' @ s) = [h, m, s]"
    using assms(1-3) by (simp add: split_on_sep split_on_no_sep)
  then show ?thesis
    using assms(4-6) by (simp add: convert_to_seconds_def)
qed

lemma convert_two:
  assumes "CHR '':'' \<notin> set m" and "CHR '':'' \<notin> set s"
    and "float_of_str B m = Some fm" and "float_of_str B s = Some fs"
  shows "convert_to_seconds B (m @ '':'' @ s) = Inr (fadd B (fmul B fm (float_of_int B 60)) fs)"
proof -
  have "split_on CHR '':'' (m @ '':'' @ s) = [m, s]"
    using assms(1,2) by (simp add: split_on_sep split_on_no_sep)
  then show ?thesis
    using assms(3,4) by (simp add: convert_to_seconds_def)
qed

lemma convert_one:
  assumes "CHR '':'' \<notin> set s" and "float_of_str B s = Some fs"
  shows "convert_to_seconds B s = Inr fs"
  using assms by (simp add: convert_to_seconds_def split_on_no_sep)

lemma convert_bad_part:
  assumes "p \<in> set (split_on CHR '':'' ts)" and "float_of_str B p = None"
  shows "\<exists>q \<in> set (split_on CHR '':'' ts).
           float_of_str B q = None \<and> convert_to_seconds B ts = Inl (FloatValueError q)"
proof -
  obtain q where "q \<in> set (split_on CHR '':'' ts)" and "float_of_str B q = None"
    and "floats_of B (split_on CHR '':'' ts) = Inl (FloatValueError q)"
    using floats_of_bad [OF assms] by blast
  then show ?thesis
    by (auto simp: convert_to_seconds_def)
qed

lemmas decimal_simps = convert_to_seconds_def decimal_builtins_def nat_of_digits_def is_digit_def
  str_of_int_def str_of_nat.simps digit_char_def

lemma decimal_examples:
  "convert_to_seconds decimal_builtins ''01:02:03'' = Inr 3723"
  "convert_to_seconds decimal_builtins ''02:30'' = Inr 150"
  "convert_to_seconds decimal_builtins ''45'' = Inr 45"
  "str_of_float decimal_builtins 3723 = ''3723.0''"
  "str_of_float decimal_builtins 150 = ''150.0''"
  "str_of_float decimal_builtins 45 = ''45.0''"
  by (simp_all add: decimal_simps)

text \<open>
  Claim C5. A timestamp of three parts \<open>h:m:s\<close>, each read by \<open>float\<close>, gives
  \<open>h * 3600 + m * 60 + s\<close> in float arithmetic, evaluated from the left as Python does;
  two parts \<open>m:s\<close> give \<open>m * 60 + s\<close>; one part gives its value. Whenever some part of a
  timestamp is not numeric, \<open>ValueError\<close> is raised for a non-numeric part. The three
  examples of the claim: \<open>01:02:03\<close> gives 3723.0, \<open>02:30\<close> gives 150.0 and \<open>45\<close> gives
  45.0.
\<close>

theorem C5_convert_to_seconds_formula:
  "(CHR '':'' \<notin> set h \<and> CHR '':'' \<notin> set m \<and> CHR '':'' \<notin> set s \<and>
    float_of_str B h = Some fh \<and> float_of_str B m = Some fm \<and> float_of_str B s = Some fs \<longrightarrow>
      convert_to_seconds B (h @ '':'' @ m @ '':'' @ s) =
        Inr (fadd B (fadd B (fmul B fh (float_of_int B 3600)) (fmul B fm (float_of_int B 60))) fs) \<and>
      convert_to_seconds B (m @ '':'' @ s) = Inr (fadd B (fmul B fm (float_of_int B 60)) fs) \<and>
      convert_to_seconds B s = Inr fs)
   \<and> ((\<exists>p \<in> set (split_on CHR '':'' ts). float_of_str B p = None) \<longrightarrow>
        (\<exists>q \<in> set (split_on CHR '':'' ts).
           float_of_str B q = None \<and> convert_to_seconds B ts = Inl (FloatValueError q)))
   \<and> convert_to_seconds decimal_builtins ''01:02:03'' = Inr 3723
   \<and> str_of_float decimal_builtins 3723 = ''3723.0''
   \<and> convert_to_seconds decimal_builtins ''02:30'' = Inr 150
   \<and> str_of_float decimal_builtins 150 = ''150.0''
   \<and> convert_to_seconds decimal_builtins ''45'' = Inr 45
   \<and> str_of_float decimal_builtins 45 = ''45.0''"
  using convert_three [of h m s B fh fm fs] convert_two [of m s B fm fs] convert_one [of s B fs]
    convert_bad_part [of _ ts B] decimal_examples
  by blast

theorem C5_convert_to_seconds_formula_witness:
  "(CHR '':'' \<notin> set ''01'' \<and> CHR '':'' \<notin> set ''02'' \<and> CHR '':'' \<notin> set ''03'' \<and>
    float_of_str decimal_builtins ''01'' = Some 1 \<and> float_of_str decimal_builtins ''02'' = Some 2 \<and>
    float_of_str decimal_builtins ''03'' = Some 3)
   \<and> convert_to_seconds decimal_builtins (''01'' @ '':'' @ ''02'' @ '':'' @ ''03'') = Inr 3723
   \<and> convert_to_seconds decimal_builtins (''02'' @ '':'' @ ''03'') = Inr 123
   \<and> convert_to_seconds decimal_builtins ''03'' = Inr 3
   \<and> (\<exists>p \<in> set (split_on CHR '':'' ''1:x''). float_of_str decimal_builtins p = None)
   \<and> (\<exists>q \<in> set (split_on CHR '':'' ''1:x'').
         float_of_str decimal_builtins q = None \<and>
         convert_to_seconds decimal_builtins ''1:x'' = Inl (FloatValueError q))"
proof -
  have parts: "CHR '':'' \<notin> set ''01'' \<and> CHR '':'' \<notin> set ''02'' \<and> CHR '':'' \<notin> set ''03'' \<and>
    float_of_str decimal_builtins ''01'' = Some 1 \<and> float_of_str decimal_builtins ''02'' = Some 2 \<and>
    float_of_str decimal_builtins ''03'' = Some 3"
    by (simp add: decimal_simps)
  have bad: "\<exists>p \<in> set (split_on CHR '':'' ''1:x''). float_of_str decimal_builtins p = None"
    by (simp add: decimal_simps)
  have ops: "fadd decimal_builtins (fadd decimal_builtins (fmul decimal_builtins 1 (float_of_int decimal_builtins 3600))
                (fmul decimal_builtins 2 (float_of_int decimal_builtins 60))) 3 = 3723"
    "fadd decimal_builtins (fmul decimal_builtins 2 (float_of_int decimal_builtins 60)) 3 = 123"
    by (simp_all add: decimal_builtins_def)
  from C5_convert_to_seconds_formula
         [of "''01''" "''02''" "''03''" decimal_builtins 1 2 3 "''1:x''"] parts bad ops
  show ?thesis by auto
qed

text \<open>
  Claim C10. A timestamp with four or more parts, all of them numeric, does not fail:
  the result is the float value of the first part, the text before the first colon, and
  the other parts have no effect on it.
\<close>

theorem C10_four_or_more_parts:
  assumes "4 \<le> length (split_on CHR '':'' ts)"
    and "\<forall>p \<in> set (split_on CHR '':'' ts). float_of_str B p \<noteq> None"
  shows "\<exists>v. float_of_str B (takeWhile (\<lambda>c. c \<noteq> CHR '':'') ts) = Some v \<and>
             convert_to_seconds B ts = Inr v"
proof -
  obtain vs where vs: "floats_of B (split_on CHR '':'' ts) = Inr vs"
    using floats_of_all [OF assms(2)] by blast
  have len: "length vs = length (split_on CHR '':'' ts)"
    using floats_of_length [OF vs] .
  obtain p ps where split: "split_on CHR '':'' ts = p # ps"
    using split_on_nonempty [of "CHR '':''" ts] by (cases "split_on CHR '':'' ts") auto
  obtain v rest where v: "vs = v # rest" "float_of_str B p = Some v"
    using floats_of_hd [of B p ps vs] vs split by auto
  have "p = takeWhile (\<lambda>c. c \<noteq> CHR '':'') ts"
    using hd_split_on [of "CHR '':''" ts] split by simp
  moreover have "convert_to_seconds B ts = Inr v"
    using vs len assms(1) v(1) by (simp add: convert_to_seconds_def)
  ultimately show ?thesis using v(2) by blast
qed

theorem C10_four_or_more_parts_witness:
  "4 \<le> length (split_on CHR '':'' ''7:02:03:04'')
   \<and> list_all (\<lambda>p. float_of_str decimal_builtins p \<noteq> None) (split_on CHR '':'' ''7:02:03:04'')
   \<and> float_of_str decimal_builtins (takeWhile (\<lambda>c. c \<noteq> CHR '':'') ''7:02:03:04'') = Some 7
   \<and> convert_to_seconds decimal_builtins ''7:02:03:04'' = Inr 7"
proof -
  have len: "4 \<le> length (split_on CHR '':'' ''7:02:03:04'')"
    by simp
  have num: "\<forall>p \<in> set (split_on CHR '':'' ''7:02:03:04''). float_of_str decimal_builtins p \<noteq> None"
    by (simp add: decimal_simps)
  have first: "float_of_str decimal_builtins (takeWhile (\<lambda>c. c \<noteq> CHR '':'') ''7:02:03:04'') = Some 7"
    by (simp add: decimal_simps)
  from C10_four_or_more_parts [OF len num] first len num
  show ?thesis by (auto simp: list_all_iff)
qed

section \<open>The Command Builder\<close>

lemma hello_times:
  "convert_to_seconds decimal_builtins ''00:00:00'' = Inr 0"
  "convert_to_seconds decimal_builtins ''00:00:05'' = Inr 5"
  "str_of_float decimal_builtins 0 = ''0.0''"
  "str_of_float decimal_builtins 5 = ''5.0''"
  by (simp_all add: decimal_simps)

lemma hello_command:
  "generate_ffmpeg_command decimal_builtins iv tf hello ov =
     Inr (''ffmpeg -i '' @ iv @ '' -filter:v '' @ [CHR 0x22]
          @ ''drawtext=fontfile=/usr/share/fonts/truetype/Arial.ttf: textfile='' @ [CHR 0x27] @ tf
          @ [CHR 0x27] @ '': x=10: y=20: fontsize=24: fontcolor=white: enable='' @ [CHR 0x27]
          @ ''between(t,0.0,5.0)'' @ [CHR 0x27] @ [CHR 0x22] @ '' -codec:a copy '' @ ov)"
  by (simp add: generate_ffmpeg_command_def hello_def hello_times str_of_int_def str_of_nat.simps
      digit_char_def)

lemma hello_parsed: "parse_row decimal_builtins hello_row = Inr (Some hello)"
  by (simp add: parse_row_def hello_row_def hello_def startswith_def decimal_builtins_def
      nat_of_digits_def is_digit_def)

lemma hello_one_filter:
  "occurrences ''drawtext=''
     (''ffmpeg -i '' @ ''in.mp4'' @ '' -filter:v '' @ [CHR 0x22]
      @ ''drawtext=fontfile=/usr/share/fonts/truetype/Arial.ttf: textfile='' @ [CHR 0x27]
      @ ''text_0.txt'' @ [CHR 0x27] @ '': x=10: y=20: fontsize=24: fontcolor=white: enable=''
      @ [CHR 0x27] @ ''between(t,0.0,5.0)'' @ [CHR 0x27] @ [CHR 0x22] @ '' -codec:a copy ''
      @ ''out.mp4'') = 1"
  by simp

lemma command_shape:
  assumes "generate_ffmpeg_command B iv tf td ov = Inr cmd"
  shows "\<exists>a b. convert_to_seconds B (start_time td) = Inr a \<and>
               convert_to_seconds B (end_time td) = Inr b \<and>
               cmd = ''ffmpeg -i '' @ iv @ '' -filter:v '' @ [CHR 0x22]
                     @ ''drawtext=fontfile=/usr/share/fonts/truetype/'' @ font td @ ''.ttf: textfile=''
                     @ [CHR 0x27] @ tf @ [CHR 0x27]
                     @ '': x='' @ str_of_int (fst (position td))
                     @ '': y='' @ str_of_int (snd (position td))
                     @ '': fontsize='' @ str_of_int (font_size td)
                     @ '': fontcolor=white: enable='' @ [CHR 0x27]
                     @ ''between(t,'' @ str_of_float B a @ '','' @ str_of_float B b @ '')''
                     @ [CHR 0x27] @ [CHR 0x22] @ '' -codec:a copy '' @ ov"
  using assms by (auto simp: generate_ffmpeg_command_def split: sum.splits)

lemma command_ignores_text:
  "generate_ffmpeg_command B iv tf (td\<lparr>overlay_text := t\<rparr>) ov = generate_ffmpeg_command B iv tf td ov"
  by (simp add: generate_ffmpeg_command_def Let_def split: sum.splits)

lemma prefix_first_sep:
  assumes "c \<notin> set w" and "c \<notin> set a"
  shows "prefix (w @ [c]) (a @ c # rest) \<longleftrightarrow> w = a"
  using assms
proof (induction w arbitrary: a)
  case Nil
  then show ?case by (cases a) auto
next
  case (Cons x w)
  then show ?case by (cases a) auto
qed

lemma occurrences_none:
  assumes "c \<notin> set s"
  shows "occurrences (w @ [c]) s = 0"
  using assms
proof (induction s)
  case Nil
  then show ?case by simp
next
  case (Cons x s)
  have "\<not> prefix (w @ [c]) (x # s)"
  proof
    assume "prefix (w @ [c]) (x # s)"
    then have "set (w @ [c]) \<subseteq> set (x # s)"
      by (rule set_mono_prefix)
    with Cons.prems show False by auto
  qed
  with Cons show ?case by simp
qed

lemma occurrences_first_sep:
  assumes "c \<notin> set w" and "c \<notin> set a"
  shows "occurrences (w @ [c]) (a @ c # rest) =
           (if suffix w a then 1 else 0) + occurrences (w @ [c]) rest"
  using assms(2)
proof (induction a)
  case Nil
  have "prefix (w @ [c]) ([] @ c # rest) \<longleftrightarrow> w = []"
    using prefix_first_sep [OF assms(1), of "[]" rest] by simp
  then show ?case by auto
next
  case (Cons y a)
  then have ya: "c \<notin> set (y # a)" and a: "c \<notin> set a"
    by auto
  have p: "prefix (w @ [c]) ((y # a) @ c # rest) \<longleftrightarrow> w = y # a"
    by (rule prefix_first_sep [OF assms(1) ya])
  have "suffix w (y # a) \<longleftrightarrow> w = y # a \<or> suffix w a"
    by (rule suffix_Cons)
  moreover have "w = y # a \<Longrightarrow> \<not> suffix w a"
    using suffix_length_le [of w a] by auto
  ultimately show ?case
    using p Cons.IH [OF a] by auto
qed

lemma occurrences_join:
  assumes "c \<notin> set w" and "\<forall>s \<in> set segs. c \<notin> set s"
  shows "occurrences (w @ [c]) (join_with c segs) = length (filter (suffix w) (butlast segs))"
  using assms(2)
proof (induction segs)
  case Nil
  then show ?case by simp
next
  case (Cons s segs)
  show ?case
  proof (cases segs)
    case Nil
    with Cons.prems show ?thesis by (simp add: occurrences_none)
  next
    case (Cons t ts)
    have rest: "occurrences (w @ [c]) (join_with c segs) = length (filter (suffix w) (butlast segs))"
      using Cons.IH Cons.prems by simp
    have free: "c \<notin> set s"
      using Cons.prems by simp
    have "occurrences (w @ [c]) (join_with c (s # segs)) =
               (if suffix w s then 1 else 0) + occurrences (w @ [c]) (join_with c segs)"
      using occurrences_first_sep [OF assms(1) free, of "join_with c segs"] Cons by simp
    also have "\<dots> = (if suffix w s then 1 else 0) + length (filter (suffix w) (butlast segs))"
      by (simp only: rest)
    also have "\<dots> = length (filter (suffix w) (s # butlast segs))"
      by simp
    also have "s # butlast segs = butlast (s # segs)"
      using Cons by simp
    finally show ?thesis .
  qed
qed

lemma plain_chars_simps [simp]:
  "plain_chars []"
  "plain_chars (a @ b) \<longleftrightarrow> plain_chars a \<and> plain_chars b"
  by (simp_all add: plain_chars_def)

lemma plain_chars_member: "plain_chars s \<Longrightarrow> c \<in> set s \<Longrightarrow> c \<in> set plain_alphabet"
  by (simp add: plain_chars_def list_all_iff)

lemma plain_chars_no_meta:
  assumes "plain_chars s"
  shows "CHR ''='' \<notin> set s" and "CHR '' '' \<notin> set s" and "CHR ''$'' \<notin> set s"
proof -
  have "CHR ''='' \<notin> set plain_alphabet" "CHR '' '' \<notin> set plain_alphabet" "CHR ''$'' \<notin> set plain_alphabet"
    by (simp_all add: plain_alphabet_def)
  then show "CHR ''='' \<notin> set s" and "CHR '' '' \<notin> set s" and "CHR ''$'' \<notin> set s"
    using plain_chars_member [OF assms] by blast+
qed

lemma plain_chars_digit: "k < 10 \<Longrightarrow> plain_chars [digit_char k]"
proof -
  assume "k < 10"
  then have "k \<in> {0, 1, 2, 3, 4, 5, 6, 7, 8, 9}" by auto
  then show "plain_chars [digit_char k]"
    by (auto simp: plain_chars_def plain_alphabet_def digit_char_def)
qed

lemma plain_chars_str_of_nat: "plain_chars (str_of_nat n)"
proof (induction n rule: str_of_nat.induct)
  case (1 n)
  show ?case
  proof (cases "n < 10")
    case True
    then show ?thesis
      using plain_chars_digit [of n] by (simp add: str_of_nat.simps [of n])
  next
    case False
    then have "plain_chars (str_of_nat (n div 10))"
      using 1 by simp
    moreover have "plain_chars [digit_char (n mod 10)]"
      by (rule plain_chars_digit) simp
    ultimately show ?thesis
      using False by (simp add: str_of_nat.simps [of n])
  qed
qed

lemma str_of_nat_nonempty: "str_of_nat n \<noteq> []"
  by (simp add: str_of_nat.simps [of n])

lemma plain_str_of_nat: "plain (str_of_nat n)"
  by (simp add: plain_def plain_chars_str_of_nat str_of_nat_nonempty)

lemma plain_str_of_int: "plain (str_of_int i)"
proof -
  have "plain_chars ''-''"
    by (simp add: plain_chars_def plain_alphabet_def)
  then have "plain_chars (CHR ''-'' # str_of_nat (nat (- i)))"
    using plain_chars_str_of_nat [of "nat (- i)"] plain_chars_simps(2) [of "''-''" "str_of_nat (nat (- i))"]
    by simp
  then show ?thesis
    using plain_chars_str_of_nat [of "nat i"]
    by (simp add: plain_def str_of_int_def str_of_nat_nonempty)
qed

lemma command_template:
  assumes "generate_ffmpeg_command B iv tf td ov = Inr cmd"
  shows "\<exists>a b. convert_to_seconds B (start_time td) = Inr a \<and>
               convert_to_seconds B (end_time td) = Inr b \<and>
               cmd = ffmpeg_template iv (font td) tf (str_of_int (fst (position td)))
                       (str_of_int (snd (position td))) (str_of_int (font_size td))
                       (str_of_float B a) (str_of_float B b) ov"
  using command_shape [OF assms] by (simp add: ffmpeg_template_def)

lemma template_joined:
  "ffmpeg_template iv fnt tf x y fs s e ov =
     join_with CHR ''=''
       [''ffmpeg -i '' @ iv @ '' -filter:v '' @ [CHR 0x22] @ ''drawtext'',
        ''fontfile'',
        ''/usr/share/fonts/truetype/'' @ fnt @ ''.ttf: textfile'',
        [CHR 0x27] @ tf @ [CHR 0x27] @ '': x'',
        x @ '': y'',
        y @ '': fontsize'',
        fs @ '': fontcolor'',
        ''white: enable'',
        [CHR 0x27] @ ''between(t,'' @ s @ '','' @ e @ '')'' @ [CHR 0x27] @ [CHR 0x22] @ '' -codec:a copy '' @ ov]"
  by (simp add: ffmpeg_template_def)

lemma template_counts:
  assumes "CHR ''='' \<notin> set iv" "CHR ''='' \<notin> set fnt" "CHR ''='' \<notin> set tf" "CHR ''='' \<notin> set x"
    "CHR ''='' \<notin> set y" "CHR ''='' \<notin> set fs" "CHR ''='' \<notin> set s" "CHR ''='' \<notin> set e" "CHR ''='' \<notin> set ov"
  shows "occurrences ''drawtext='' (ffmpeg_template iv fnt tf x y fs s e ov) = 1"
    and "occurrences ''textfile='' (ffmpeg_template iv fnt tf x y fs s e ov) = 1"
    and "occurrences ''text='' (ffmpeg_template iv fnt tf x y fs s e ov) = 1"
proof -
  let ?segs = "[''ffmpeg -i '' @ iv @ '' -filter:v '' @ [CHR 0x22] @ ''drawtext'',
        ''fontfile'',
        ''/usr/share/fonts/truetype/'' @ fnt @ ''.ttf: textfile'',
        [CHR 0x27] @ tf @ [CHR 0x27] @ '': x'',
        x @ '': y'',
        y @ '': fontsize'',
        fs @ '': fontcolor'',
        ''white: enable'',
        [CHR 0x27] @ ''between(t,'' @ s @ '','' @ e @ '')'' @ [CHR 0x27] @ [CHR 0x22] @ '' -codec:a copy '' @ ov]"
  have free: "\<forall>g \<in> set ?segs. CHR ''='' \<notin> set g"
    using assms by simp
  have "occurrences (''drawtext'' @ [CHR ''='']) (join_with CHR ''='' ?segs) =
          length (filter (suffix ''drawtext'') (butlast ?segs))"
    by (rule occurrences_join [OF _ free]) simp
  then show "occurrences ''drawtext='' (ffmpeg_template iv fnt tf x y fs s e ov) = 1"
    by (simp add: template_joined suffix_to_prefix)
  have "occurrences (''textfile'' @ [CHR ''='']) (join_with CHR ''='' ?segs) =
          length (filter (suffix ''textfile'') (butlast ?segs))"
    by (rule occurrences_join [OF _ free]) simp
  then show "occurrences ''textfile='' (ffmpeg_template iv fnt tf x y fs s e ov) = 1"
    by (simp add: template_joined suffix_to_prefix)
  have "occurrences (''text'' @ [CHR ''='']) (join_with CHR ''='' ?segs) =
          length (filter (suffix ''text'') (butlast ?segs))"
    by (rule occurrences_join [OF _ free]) simp
  then show "occurrences ''text='' (ffmpeg_template iv fnt tf x y fs s e ov) = 1"
    by (simp add: template_joined suffix_to_prefix)
qed


lemma two_filters_parsed: "parse_row decimal_builtins two_filters_row = Inr (Some two_filters)"
  by (simp add: parse_row_def two_filters_row_def two_filters_def hello_def startswith_def
      decimal_builtins_def nat_of_digits_def is_digit_def)

lemma two_filters_command:
  "generate_ffmpeg_command decimal_builtins ''in.mp4'' ''text_0.txt'' two_filters ''out.mp4'' =
     Inr (''ffmpeg -i in.mp4 -filter:v '' @ [CHR 0x22]
          @ ''drawtext=fontfile=/usr/share/fonts/truetype/A.ttf:text=INLINED,''
          @ ''drawtext=fontfile=/usr/share/fonts/truetype/B.ttf: textfile='' @ [CHR 0x27]
          @ ''text_0.txt'' @ [CHR 0x27] @ '': x=10: y=20: fontsize=24: fontcolor=white: enable=''
          @ [CHR 0x27] @ ''between(t,0.0,5.0)'' @ [CHR 0x27] @ [CHR 0x22] @ '' -codec:a copy out.mp4'')"
  by (simp add: generate_ffmpeg_command_def two_filters_def hello_def hello_times str_of_int_def
      str_of_nat.simps digit_char_def)

lemma two_filters_counts:
  "occurrences ''drawtext=''
     (''ffmpeg -i in.mp4 -filter:v '' @ [CHR 0x22]
          @ ''drawtext=fontfile=/usr/share/fonts/truetype/A.ttf:text=INLINED,''
          @ ''drawtext=fontfile=/usr/share/fonts/truetype/B.ttf: textfile='' @ [CHR 0x27]
          @ ''text_0.txt'' @ [CHR 0x27] @ '': x=10: y=20: fontsize=24: fontcolor=white: enable=''
          @ [CHR 0x27] @ ''between(t,0.0,5.0)'' @ [CHR 0x27] @ [CHR 0x22] @ '' -codec:a copy out.mp4'') = 2"
  "occurrences '':text=INLINED''
     (''ffmpeg -i in.mp4 -filter:v '' @ [CHR 0x22]
          @ ''drawtext=fontfile=/usr/share/fonts/truetype/A.ttf:text=INLINED,''
          @ ''drawtext=fontfile=/usr/share/fonts/truetype/B.ttf: textfile='' @ [CHR 0x27]
          @ ''text_0.txt'' @ [CHR 0x27] @ '': x=10: y=20: fontsize=24: fontcolor=white: enable=''
          @ [CHR 0x27] @ ''between(t,0.0,5.0)'' @ [CHR 0x27] @ [CHR 0x22] @ '' -codec:a copy out.mp4'') = 1"
  by simp_all

lemma command_counts:
  assumes "generate_ffmpeg_command B iv tf td ov = Inr cmd"
    and "CHR ''='' \<notin> set iv" and "CHR ''='' \<notin> set tf" and "CHR ''='' \<notin> set (font td)"
    and "CHR ''='' \<notin> set ov" and "\<forall>v. CHR ''='' \<notin> set (str_of_float B v)"
  shows "occurrences ''drawtext='' cmd = 1 \<and> occurrences ''textfile='' cmd = 1 \<and>
         occurrences ''text='' cmd = 1"
proof -
  obtain a b where cmd: "cmd = ffmpeg_template iv (font td) tf (str_of_int (fst (position td)))
                       (str_of_int (snd (position td))) (str_of_int (font_size td))
                       (str_of_float B a) (str_of_float B b) ov"
    using command_template [OF assms(1)] by blast
  have ints: "\<And>i. CHR ''='' \<notin> set (str_of_int i)"
    using plain_str_of_int plain_chars_no_meta(1) by (simp add: plain_def)
  show ?thesis
    unfolding cmd
    using template_counts [OF assms(2) assms(4) assms(3) ints ints ints _ _ assms(5)] assms(6)
    by simp
qed

text \<open>
  Claim C6, as the code has it. Every command that the Command Builder produces is
  \<open>ffmpeg -i <input> -filter:v "<filter>" -codec:a copy <output>\<close>, where the filter is the
  template \<open>drawtext=fontfile=...<font>.ttf: textfile='<content file>': x=...: y=...:
  fontsize=...: fontcolor=white: enable='between(t,<start>,<end>)'\<close>, with the audio
  stream copied. The overlay's text is not in the command: changing it changes nothing.
  When the font name, the paths and the formatted times have no \<open>=\<close> in them, the command
  has \<open>drawtext=\<close> once, \<open>textfile=\<close> once, and \<open>text=\<close> only as the end of \<open>drawtext=\<close>: one
  \<open>drawtext\<close> filter, its text from the content file and no inline text. For the entry
  \<open>00:00:00,00:00:05,"Hello",10,20,Arial,24\<close> the command has \<open>x=10\<close>, \<open>y=20\<close>,
  \<open>fontsize=24\<close> and \<open>enable='between(t,0.0,5.0)'\<close>, and \<open>drawtext=\<close> occurs in it once.
\<close>

theorem C6_command_builder:
  "(generate_ffmpeg_command B iv tf td ov = Inr cmd \<longrightarrow>
      (\<exists>a b. convert_to_seconds B (start_time td) = Inr a \<and>
             convert_to_seconds B (end_time td) = Inr b \<and>
             cmd = ''ffmpeg -i '' @ iv @ '' -filter:v '' @ [CHR 0x22]
                   @ ''drawtext=fontfile=/usr/share/fonts/truetype/'' @ font td @ ''.ttf: textfile=''
                   @ [CHR 0x27] @ tf @ [CHR 0x27]
                   @ '': x='' @ str_of_int (fst (position td))
                   @ '': y='' @ str_of_int (snd (position td))
                   @ '': fontsize='' @ str_of_int (font_size td)
                   @ '': fontcolor=white: enable='' @ [CHR 0x27]
                   @ ''between(t,'' @ str_of_float B a @ '','' @ str_of_float B b @ '')''
                   @ [CHR 0x27] @ [CHR 0x22] @ '' -codec:a copy '' @ ov))
   \<and> (generate_ffmpeg_command B iv tf td ov = Inr cmd \<and>
       CHR ''='' \<notin> set iv \<and> CHR ''='' \<notin> set tf \<and> CHR ''='' \<notin> set (font td) \<and> CHR ''='' \<notin> set ov \<and>
       (\<forall>v. CHR ''='' \<notin> set (str_of_float B v)) \<longrightarrow>
         occurrences ''drawtext='' cmd = 1 \<and> occurrences ''textfile='' cmd = 1 \<and>
         occurrences ''text='' cmd = 1)
   \<and> generate_ffmpeg_command B iv tf (td\<lparr>overlay_text := t\<rparr>) ov = generate_ffmpeg_command B iv tf td ov
   \<and> parse_row decimal_builtins hello_row = Inr (Some hello)
   \<and> generate_ffmpeg_command decimal_builtins iv tf hello ov =
       Inr (''ffmpeg -i '' @ iv @ '' -filter:v '' @ [CHR 0x22]
            @ ''drawtext=fontfile=/usr/share/fonts/truetype/Arial.ttf: textfile='' @ [CHR 0x27] @ tf
            @ [CHR 0x27] @ '': x=10: y=20: fontsize=24: fontcolor=white: enable='' @ [CHR 0x27]
            @ ''between(t,0.0,5.0)'' @ [CHR 0x27] @ [CHR 0x22] @ '' -codec:a copy '' @ ov)
   \<and> (\<exists>c. generate_ffmpeg_command decimal_builtins ''in.mp4'' ''text_0.txt'' hello ''out.mp4'' = Inr c \<and>
            occurrences ''drawtext='' c = 1)"
proof -
  have one: "\<exists>c. generate_ffmpeg_command decimal_builtins ''in.mp4'' ''text_0.txt'' hello ''out.mp4'' = Inr c \<and>
            occurrences ''drawtext='' c = 1"
    using hello_command [of "''in.mp4''" "''text_0.txt''" "''out.mp4''"] hello_one_filter
    by (intro exI conjI) assumption+
  have counts: "generate_ffmpeg_command B iv tf td ov = Inr cmd \<and>
       CHR ''='' \<notin> set iv \<and> CHR ''='' \<notin> set tf \<and> CHR ''='' \<notin> set (font td) \<and> CHR ''='' \<notin> set ov \<and>
       (\<forall>v. CHR ''='' \<notin> set (str_of_float B v)) \<longrightarrow>
         occurrences ''drawtext='' cmd = 1 \<and> occurrences ''textfile='' cmd = 1 \<and>
         occurrences ''text='' cmd = 1"
    using command_counts [of B iv tf td ov cmd] by blast
  show ?thesis
    using command_shape [of B iv tf td ov cmd] command_ignores_text [of B iv tf t td ov]
      hello_parsed hello_command [of iv tf ov] one counts
    by blast
qed

lemma decimal_float_no_eq: "CHR ''='' \<notin> set (str_of_float decimal_builtins v)"
proof -
  have "plain_chars ''.0''"
    by (simp add: plain_chars_def plain_alphabet_def)
  then have "plain_chars (str_of_int v @ ''.0'')"
    using plain_str_of_int [of v] by (simp add: plain_def)
  then show ?thesis
    using plain_chars_no_meta(1) by (simp add: decimal_builtins_def)
qed

theorem C6_command_builder_witness:
  "generate_ffmpeg_command decimal_builtins ''in.mp4'' ''text_0.txt'' hello ''out.mp4'' =
     Inr (''ffmpeg -i '' @ ''in.mp4'' @ '' -filter:v '' @ [CHR 0x22]
          @ ''drawtext=fontfile=/usr/share/fonts/truetype/Arial.ttf: textfile='' @ [CHR 0x27]
          @ ''text_0.txt'' @ [CHR 0x27] @ '': x=10: y=20: fontsize=24: fontcolor=white: enable=''
          @ [CHR 0x27] @ ''between(t,0.0,5.0)'' @ [CHR 0x27] @ [CHR 0x22] @ '' -codec:a copy ''
          @ ''out.mp4'')
   \<and> (\<exists>a b. convert_to_seconds decimal_builtins (start_time hello) = Inr a \<and>
             convert_to_seconds decimal_builtins (end_time hello) = Inr b \<and>
             str_of_float decimal_builtins a = ''0.0'' \<and> str_of_float decimal_builtins b = ''5.0'')
   \<and> CHR ''='' \<notin> set ''in.mp4'' \<and> CHR ''='' \<notin> set ''text_0.txt'' \<and> CHR ''='' \<notin> set (font hello)
   \<and> CHR ''='' \<notin> set ''out.mp4''
   \<and> (\<exists>c. generate_ffmpeg_command decimal_builtins ''in.mp4'' ''text_0.txt'' hello ''out.mp4'' = Inr c \<and>
            occurrences ''drawtext='' c = 1 \<and> occurrences ''textfile='' c = 1 \<and> occurrences ''text='' c = 1)"
proof -
  let ?cmd = "''ffmpeg -i '' @ ''in.mp4'' @ '' -filter:v '' @ [CHR 0x22]
          @ ''drawtext=fontfile=/usr/share/fonts/truetype/Arial.ttf: textfile='' @ [CHR 0x27]
          @ ''text_0.txt'' @ [CHR 0x27] @ '': x=10: y=20: fontsize=24: fontcolor=white: enable=''
          @ [CHR 0x27] @ ''between(t,0.0,5.0)'' @ [CHR 0x27] @ [CHR 0x22] @ '' -codec:a copy ''
          @ ''out.mp4''"
  have gen: "generate_ffmpeg_command decimal_builtins ''in.mp4'' ''text_0.txt'' hello ''out.mp4'' = Inr ?cmd"
    by (rule hello_command)
  have free: "CHR ''='' \<notin> set ''in.mp4''" "CHR ''='' \<notin> set ''text_0.txt''"
    "CHR ''='' \<notin> set (font hello)" "CHR ''='' \<notin> set ''out.mp4''"
    by (simp_all add: hello_def)
  have fl: "\<forall>v. CHR ''='' \<notin> set (str_of_float decimal_builtins v)"
    using decimal_float_no_eq by blast
  note inst = C6_command_builder [of decimal_builtins "''in.mp4''" "''text_0.txt''" hello "''out.mp4''" ?cmd]
  from inst gen
  obtain a b where ab: "convert_to_seconds decimal_builtins (start_time hello) = Inr a"
    "convert_to_seconds decimal_builtins (end_time hello) = Inr b"
    by blast
  from inst gen free fl
  have counts: "occurrences ''drawtext='' ?cmd = 1 \<and> occurrences ''textfile='' ?cmd = 1 \<and>
         occurrences ''text='' ?cmd = 1"
    by blast
  have times: "\<exists>a b. convert_to_seconds decimal_builtins (start_time hello) = Inr a \<and>
             convert_to_seconds decimal_builtins (end_time hello) = Inr b \<and>
             str_of_float decimal_builtins a = ''0.0'' \<and> str_of_float decimal_builtins b = ''5.0''"
    using ab by (auto simp: hello_def hello_times)
  have "\<exists>c. generate_ffmpeg_command decimal_builtins ''in.mp4'' ''text_0.txt'' hello ''out.mp4'' = Inr c \<and>
            occurrences ''drawtext='' c = 1 \<and> occurrences ''textfile='' c = 1 \<and> occurrences ''text='' c = 1"
    using gen counts by blast
  with gen times free show ?thesis
    by blast
qed

text \<open>
  The claim as the specification states it fails for an entry whose font field carries
  filter syntax: the row parses, and its command has two \<open>drawtext\<close> filters, the first
  with an inline text.
\<close>

theorem C6_font_with_filter_syntax_counterexample:
  "parse_row decimal_builtins two_filters_row = Inr (Some two_filters)
   \<and> generate_ffmpeg_command decimal_builtins ''in.mp4'' ''text_0.txt'' two_filters ''out.mp4'' =
       Inr (''ffmpeg -i in.mp4 -filter:v '' @ [CHR 0x22]
            @ ''drawtext=fontfile=/usr/share/fonts/truetype/A.ttf:text=INLINED,''
            @ ''drawtext=fontfile=/usr/share/fonts/truetype/B.ttf: textfile='' @ [CHR 0x27]
            @ ''text_0.txt'' @ [CHR 0x27] @ '': x=10: y=20: fontsize=24: fontcolor=white: enable=''
            @ [CHR 0x27] @ ''between(t,0.0,5.0)'' @ [CHR 0x27] @ [CHR 0x22] @ '' -codec:a copy out.mp4'')
   \<and> occurrences ''drawtext=''
       (''ffmpeg -i in.mp4 -filter:v '' @ [CHR 0x22]
            @ ''drawtext=fontfile=/usr/share/fonts/truetype/A.ttf:text=INLINED,''
            @ ''drawtext=fontfile=/usr/share/fonts/truetype/B.ttf: textfile='' @ [CHR 0x27]
            @ ''text_0.txt'' @ [CHR 0x27] @ '': x=10: y=20: fontsize=24: fontcolor=white: enable=''
            @ [CHR 0x27] @ ''between(t,0.0,5.0)'' @ [CHR 0x27] @ [CHR 0x22] @ '' -codec:a copy out.mp4'') = 2
   \<and> occurrences '':text=INLINED''
       (''ffmpeg -i in.mp4 -filter:v '' @ [CHR 0x22]
            @ ''drawtext=fontfile=/usr/share/fonts/truetype/A.ttf:text=INLINED,''
            @ ''drawtext=fontfile=/usr/share/fonts/truetype/B.ttf: textfile='' @ [CHR 0x27]
            @ ''text_0.txt'' @ [CHR 0x27] @ '': x=10: y=20: fontsize=24: fontcolor=white: enable=''
            @ [CHR 0x27] @ ''between(t,0.0,5.0)'' @ [CHR 0x27] @ [CHR 0x22] @ '' -codec:a copy out.mp4'') = 1"
  using two_filters_parsed two_filters_command two_filters_counts by blast

section \<open>The Instruction Parser\<close>

lemma parse_row_malformed: "malformed B row \<longleftrightarrow> (\<exists>e. parse_row B row = Inl e)"
  by (cases row) (auto simp: parse_row_def malformed_def is_comment_def split: option.splits)

lemma parse_row_comment: "is_comment row \<Longrightarrow> parse_row B row = Inr None"
  by (cases row) (auto simp: parse_row_def is_comment_def)

lemma parse_row_entry:
  "\<not> malformed B row \<Longrightarrow> \<not> is_comment row \<Longrightarrow> parse_row B row = Inr (Some (entry_of B row))"
  by (cases row) (auto simp: parse_row_def malformed_def is_comment_def entry_of_def split: option.splits)

lemma parse_rows_malformed:
  assumes "\<exists>row \<in> set rows. malformed B row"
  shows "\<exists>e. parse_rows B rows acc = Inl e \<and> (\<exists>row \<in> set rows. parse_row B row = Inl e)"
  using assms
proof (induction rows arbitrary: acc)
  case Nil
  then show ?case by simp
next
  case (Cons row rows)
  show ?case
  proof (cases "parse_row B row")
    case (Inl e)
    then show ?thesis by auto
  next
    case (Inr r)
    then have "\<not> malformed B row"
      by (simp add: parse_row_malformed)
    with Cons.prems have "\<exists>row \<in> set rows. malformed B row"
      by auto
    from Cons.IH [OF this] Inr show ?thesis
      by (cases r) auto
  qed
qed

lemma parse_rows_wellformed:
  assumes "\<forall>row \<in> set rows. \<not> malformed B row"
  shows "parse_rows B rows acc = Inr (acc @ map (entry_of B) (filter (\<lambda>row. \<not> is_comment row) rows))"
  using assms
proof (induction rows arbitrary: acc)
  case Nil
  then show ?case by simp
next
  case (Cons row rows)
  then have rest: "\<And>acc. parse_rows B rows acc =
      Inr (acc @ map (entry_of B) (filter (\<lambda>row. \<not> is_comment row) rows))"
    by simp
  from Cons.prems have ok: "\<not> malformed B row"
    by simp
  show ?case
  proof (cases "is_comment row")
    case True
    then show ?thesis
      by (simp add: parse_row_comment rest)
  next
    case False
    then show ?thesis
      by (simp add: parse_row_entry [OF ok False] rest)
  qed
qed

lemma main_parse_error: "parse_text_file B W (text_file a) = Inl e \<Longrightarrow> main B W a = (Returned, [])"
  by (simp add: main_def)

text \<open>
  Claim C4. When the instruction file cannot be opened, or some row that is no comment
  has a field count other than seven or an x, y or font-size field that is not an integer,
  \<open>parse_text_file\<close> raises \<open>RuntimeError\<close> around the exception that caused it (\<open>OSError\<close>
  for the file, else the exception that a row of the file raised), and \<open>main\<close> returns
  with nothing done: no copy, no file written, no invocation of the tool.
\<close>

theorem C4_parse_error_aborts:
  assumes "read_csv W (text_file a) = CannotOpen \<or>
           (\<exists>rows. (read_csv W (text_file a) = Rows rows \<or> read_csv W (text_file a) = RowsThenError rows) \<and>
                   (\<exists>row \<in> set rows. malformed B row))"
  shows "\<exists>cause. parse_text_file B W (text_file a) = Inl (RuntimeError ''Error parsing text file'' cause) \<and>
               (cause = OSError \<and> read_csv W (text_file a) = CannotOpen \<or>
                (\<exists>rows row. (read_csv W (text_file a) = Rows rows \<or> read_csv W (text_file a) = RowsThenError rows) \<and>
                            row \<in> set rows \<and> parse_row B row = Inl cause)) \<and>
               main B W a = (Returned, [])"
proof -
  from assms consider
      (nofile) "read_csv W (text_file a) = CannotOpen"
    | (rows) rows where "read_csv W (text_file a) = Rows rows" "\<exists>row \<in> set rows. malformed B row"
    | (broken) rows where "read_csv W (text_file a) = RowsThenError rows" "\<exists>row \<in> set rows. malformed B row"
    by blast
  then show ?thesis
  proof cases
    case nofile
    then have "parse_text_file B W (text_file a) = Inl (RuntimeError ''Error parsing text file'' OSError)"
      by (simp add: parse_text_file_def)
    with nofile show ?thesis
      using main_parse_error [of B W a] by auto
  next
    case rows
    from parse_rows_malformed [OF rows(2), of "[]"] obtain e row
      where e: "parse_rows B rows [] = Inl e" "row \<in> set rows" "parse_row B row = Inl e"
      by blast
    then have "parse_text_file B W (text_file a) = Inl (RuntimeError ''Error parsing text file'' e)"
      using rows(1) by (simp add: parse_text_file_def)
    with rows(1) e(2,3) show ?thesis
      using main_parse_error [of B W a] by auto
  next
    case broken
    from parse_rows_malformed [OF broken(2), of "[]"] obtain e row
      where e: "parse_rows B rows [] = Inl e" "row \<in> set rows" "parse_row B row = Inl e"
      by blast
    then have "parse_text_file B W (text_file a) = Inl (RuntimeError ''Error parsing text file'' e)"
      using broken(1) by (simp add: parse_text_file_def)
    with broken(1) e(2,3) show ?thesis
      using main_parse_error [of B W a] by auto
  qed
qed

lemmas demo_simps = demo_world_def demo_args_def hello_row_def parse_text_file_def parse_row_def
  startswith_def decimal_builtins_def nat_of_digits_def is_digit_def

theorem C4_parse_error_aborts_witness:
  "malformed decimal_builtins [''00:00:01'', ''00:00:02'', ''Bye'']
   \<and> parse_text_file decimal_builtins
         (demo_world (Rows [hello_row, [''00:00:01'', ''00:00:02'', ''Bye'']]) (\<lambda>_. 0) [])
         (text_file demo_args) = Inl (RuntimeError ''Error parsing text file'' (UnpackError 3))
   \<and> main decimal_builtins
         (demo_world (Rows [hello_row, [''00:00:01'', ''00:00:02'', ''Bye'']]) (\<lambda>_. 0) [])
         demo_args = (Returned, [])"
proof -
  let ?W = "demo_world (Rows [hello_row, [''00:00:01'', ''00:00:02'', ''Bye'']]) (\<lambda>_. 0) []"
  have bad: "malformed decimal_builtins [''00:00:01'', ''00:00:02'', ''Bye'']"
    by (simp add: malformed_def is_comment_def startswith_def)
  have src: "read_csv ?W (text_file demo_args) = Rows [hello_row, [''00:00:01'', ''00:00:02'', ''Bye'']]"
    by (simp add: demo_world_def)
  have hyp: "read_csv ?W (text_file demo_args) = CannotOpen \<or>
           (\<exists>rows. (read_csv ?W (text_file demo_args) = Rows rows \<or>
                    read_csv ?W (text_file demo_args) = RowsThenError rows) \<and>
                   (\<exists>row \<in> set rows. malformed decimal_builtins row))"
    using bad src by auto
  have err: "parse_text_file decimal_builtins ?W (text_file demo_args) =
               Inl (RuntimeError ''Error parsing text file'' (UnpackError 3))"
    by (simp add: demo_simps)
  from C4_parse_error_aborts [OF hyp] have "main decimal_builtins ?W demo_args = (Returned, [])"
    by blast
  with bad err show ?thesis by simp
qed

text \<open>
  Claim C7 fails on the code for empty rows. \<open>csv.reader\<close> yields the empty list for a
  blank line, and the loop evaluates \<open>row[0]\<close> before \<open>not row\<close>: an empty row raises
  \<open>IndexError\<close>, so a file with a blank line is not parsed at all. (For a file whose
  rows are all comments or well-formed entries, \<open>parse_rows_wellformed\<close> above gives the
  entries of the rows that are no comments, in file order.)
\<close>

theorem C7_empty_row_raises:
  assumes "read_csv W file_path = Rows rows" and "[] \<in> set rows"
  shows "\<exists>e. parse_text_file B W file_path = Inl (RuntimeError ''Error parsing text file'' e)"
proof -
  have "malformed B []"
    by (simp add: malformed_def is_comment_def)
  with assms(2) have "\<exists>row \<in> set rows. malformed B row"
    by blast
  from parse_rows_malformed [OF this, of "[]"] assms(1) show ?thesis
    by (auto simp: parse_text_file_def)
qed

theorem C7_empty_row_raises_witness:
  "read_csv (demo_world (Rows [hello_row, [], hello_row]) (\<lambda>_. 0) []) ''texts.csv'' = Rows [hello_row, [], hello_row]
   \<and> [] \<in> set [hello_row, [], hello_row]
   \<and> parse_text_file decimal_builtins (demo_world (Rows [hello_row, [], hello_row]) (\<lambda>_. 0) []) ''texts.csv'' =
       Inl (RuntimeError ''Error parsing text file'' IndexError)"
proof -
  let ?W = "demo_world (Rows [hello_row, [], hello_row]) (\<lambda>_. 0) []"
  have src: "read_csv ?W ''texts.csv'' = Rows [hello_row, [], hello_row]"
    by (simp add: demo_world_def)
  have mem: "[] \<in> set [hello_row, [], hello_row]"
    by simp
  from C7_empty_row_raises [OF src mem, of decimal_builtins] obtain e
    where e: "parse_text_file decimal_builtins ?W ''texts.csv'' = Inl (RuntimeError ''Error parsing text file'' e)"
    by blast
  have "parse_text_file decimal_builtins ?W ''texts.csv'' = Inl (RuntimeError ''Error parsing text file'' IndexError)"
    by (simp add: demo_simps)
  with src mem e show ?thesis by simp
qed

section \<open>The display name of a font\<close>

lemma font_name_first_dot: "font_name_of font_path = takeWhile (\<lambda>c. c \<noteq> CHR ''.'') (basename font_path)"
  by (simp add: font_name_of_def hd_split_on)

lemma takeWhile_stem:
  "takeWhile (\<lambda>c. c \<noteq> d) (stem @ d # ext) = stem \<longleftrightarrow> d \<notin> set stem"
proof
  assume "d \<notin> set stem"
  then show "takeWhile (\<lambda>c. c \<noteq> d) (stem @ d # ext) = stem"
    by (induction stem) auto
next
  assume eq: "takeWhile (\<lambda>c. c \<noteq> d) (stem @ d # ext) = stem"
  show "d \<notin> set stem"
  proof
    assume "d \<in> set stem"
    then have "takeWhile (\<lambda>c. c \<noteq> d) (stem @ d # ext) = takeWhile (\<lambda>c. c \<noteq> d) stem"
      by (simp add: takeWhile_append1)
    with eq have "takeWhile (\<lambda>c. c \<noteq> d) stem = stem"
      by simp
    then have "\<forall>c \<in> set stem. c \<noteq> d"
      by (simp add: takeWhile_eq_all_conv)
    with \<open>d \<in> set stem\<close> show False by blast
  qed
qed

text \<open>
  Claim C9, as the code has it. The display name is the part of the filename before its
  first dot. For a filename \<open>stem.extension\<close> it is the stem exactly when the stem has no
  dot in it.
\<close>

theorem C9_font_name_before_first_dot:
  "font_name_of font_path = takeWhile (\<lambda>c. c \<noteq> CHR ''.'') (basename font_path)
   \<and> (basename font_path = stem @ ''.'' @ ext \<longrightarrow>
        (font_name_of font_path = stem \<longleftrightarrow> CHR ''.'' \<notin> set stem))"
  using takeWhile_stem [of "CHR ''.''" stem ext]
  by (auto simp: font_name_first_dot)

theorem C9_font_name_before_first_dot_witness:
  "basename ''/usr/share/fonts/truetype/msttcorefonts/Arial.ttf'' = ''Arial'' @ ''.'' @ ''ttf''
   \<and> CHR ''.'' \<notin> set ''Arial''
   \<and> font_name_of ''/usr/share/fonts/truetype/msttcorefonts/Arial.ttf'' = ''Arial''"
proof -
  have base: "basename ''/usr/share/fonts/truetype/msttcorefonts/Arial.ttf'' = ''Arial'' @ ''.'' @ ''ttf''"
    by (simp add: basename_def)
  have nodot: "CHR ''.'' \<notin> set ''Arial''"
    by simp
  from C9_font_name_before_first_dot
         [of "''/usr/share/fonts/truetype/msttcorefonts/Arial.ttf''" "''Arial''" "''ttf''"] base nodot
  show ?thesis by blast
qed

text \<open>
  The claim as the specification states it fails for a filename with a dot in its stem:
  \<open>Noto.Sans.ttf\<close>, a name that \<open>list_fonts\<close> yields, is displayed as \<open>Noto\<close>.
\<close>

theorem C9_stem_with_dot_counterexample:
  "endswith ''Noto.Sans.ttf'' ''.ttf''
   \<and> basename ''/usr/share/fonts/truetype/Noto.Sans.ttf'' = ''Noto.Sans'' @ ''.'' @ ''ttf''
   \<and> font_name_of ''/usr/share/fonts/truetype/Noto.Sans.ttf'' = ''Noto''
   \<and> font_name_of ''/usr/share/fonts/truetype/Noto.Sans.ttf'' \<noteq> ''Noto.Sans''"
  by (simp add: endswith_def basename_def font_name_of_def)

section \<open>The Overlay Compositor\<close>

lemma generate_times_ok:
  "times_ok B t \<longleftrightarrow> (\<exists>c. generate_ffmpeg_command B iv tf t ov = Inr c)"
  by (auto simp: times_ok_def generate_ffmpeg_command_def Let_def split: sum.splits)

lemma calls_append [simp]: "calls (tr @ tr') = calls tr + calls tr'"
  by (simp add: calls_def)

lemma calls_simps [simp]:
  "calls [] = 0"
  "calls (Copy s d # tr) = Suc (calls tr)"
  "calls (WriteText p x # tr) = calls tr"
  "calls (RunFfmpeg s d c # tr) = Suc (calls tr)"
  by (simp_all add: calls_def)

lemma loop_all_ok:
  assumes "\<forall>t \<in> set texts. times_ok B t"
    and "\<forall>j < length texts. returncode W (calls tr + j) = 0"
  shows "overlay_loop B W idx texts (working W idx) tr =
           Completed (working W (idx + length texts))
             (tr @ concat (map (\<lambda>(i, t). step_actions B W i t) (enumerate idx texts)))"
  using assms
proof (induction texts arbitrary: idx tr)
  case Nil
  then show ?case by simp
next
  case (Cons t texts)
  from Cons.prems(1) have "times_ok B t" by simp
  then obtain c where c: "generate_ffmpeg_command B (working W idx) (text_path W idx) t (step_output W idx) = Inr c"
    using generate_times_ok by blast
  then have cmd: "step_command B W idx t = c"
    by (simp add: step_command_def)
  from Cons.prems(2) have rc0: "returncode W (calls tr) = 0"
    by force
  let ?tr2 = "tr @ [WriteText (text_path W idx) (overlay_text t), RunFfmpeg (working W idx) (step_output W idx) c]"
  have rest: "\<forall>j < length texts. returncode W (calls ?tr2 + j) = 0"
    using Cons.prems(2) by auto
  have "overlay_loop B W (Suc idx) texts (working W (Suc idx)) ?tr2 =
          Completed (working W (Suc idx + length texts))
            (?tr2 @ concat (map (\<lambda>(i, t). step_actions B W i t) (enumerate (Suc idx) texts)))"
    using Cons.IH [of ?tr2 "Suc idx"] Cons.prems(1) rest by simp
  then show ?case
    using c cmd rc0 by (simp add: run_ffmpeg_def step_actions_def)
qed

lemma prefix_path_join: "\<not> startswith b ''/'' \<Longrightarrow> prefix a (path_join a b)"
  by (simp add: path_join_def)

lemma prefix_tmp:
  "prefix (tmpdirname W) (text_path W j)"
  "prefix (tmpdirname W) (step_output W j)"
  "prefix (tmpdirname W) (working W j)"
proof -
  show "prefix (tmpdirname W) (text_path W j)"
    by (simp add: text_path_def prefix_path_join startswith_def)
  show out: "prefix (tmpdirname W) (step_output W j)"
    by (simp add: step_output_def)
  show "prefix (tmpdirname W) (working W j)"
    using out by (cases j) (simp_all add: prefix_path_join startswith_def step_output_def)
qed

lemma loop_action_mono: "T \<subseteq> T' \<Longrightarrow> loop_action B W T x \<Longrightarrow> loop_action B W T' x"
  by (cases x) (auto simp: loop_action_def)

lemma loop_stops:
  assumes "calls tr = Suc idx" and "idx \<le> i" and "i < idx + length texts"
    and "returncode W (Suc i) \<noteq> 0"
  shows "\<exists>oc ext n. overlay_loop B W idx texts (working W idx) tr = Stopped oc (tr @ ext) \<and>
           n \<le> Suc i - idx \<and>
           filter is_ffmpeg ext =
             map (\<lambda>(j, t). RunFfmpeg (working W j) (step_output W j) (step_command B W j t))
               (enumerate idx (take n texts)) \<and>
           (\<forall>x \<in> set ext. loop_action B W (set texts) x) \<and>
           ((\<forall>t \<in> set (take (Suc i - idx) texts). times_ok B t) \<longrightarrow> oc = Returned)"
  using assms
proof (induction texts arbitrary: idx tr)
  case Nil
  then show ?case by simp
next
  case (Cons t texts)
  let ?w = "WriteText (text_path W idx) (overlay_text t)"
  let ?inv = "\<lambda>(j, t). RunFfmpeg (working W j) (step_output W j) (step_command B W j t)"
  show ?case
  proof (cases "generate_ffmpeg_command B (working W idx) (text_path W idx) t (step_output W idx)")
    case (Inl e)
    then have "overlay_loop B W idx (t # texts) (working W idx) tr = Stopped (Raised e) (tr @ [?w])"
      by simp
    moreover have "filter is_ffmpeg [?w] = map ?inv (enumerate idx (take 0 (t # texts)))"
      by simp
    moreover have "\<forall>x \<in> set [?w]. loop_action B W (set (t # texts)) x"
      by (auto simp: loop_action_def)
    moreover have "\<not> (\<forall>t \<in> set (take (Suc i - idx) (t # texts)). times_ok B t)"
    proof -
      have "\<not> times_ok B t"
        using Inl generate_times_ok [of B t "working W idx" "text_path W idx" "step_output W idx"] by simp
      moreover have "t \<in> set (take (Suc i - idx) (t # texts))"
        using Cons.prems(2) by (simp add: Suc_diff_le)
      ultimately show ?thesis by blast
    qed
    ultimately show ?thesis by blast
  next
    case (Inr c)
    then have cmd: "step_command B W idx t = c"
      by (simp add: step_command_def)
    let ?r = "RunFfmpeg (working W idx) (step_output W idx) c"
    have here: "\<forall>x \<in> set [?w, ?r]. loop_action B W (set (t # texts)) x"
      using Inr by (auto simp: loop_action_def)
    show ?thesis
    proof (cases "returncode W (Suc idx) = 0")
      case False
      then have "overlay_loop B W idx (t # texts) (working W idx) tr = Stopped Returned (tr @ [?w, ?r])"
        using Inr Cons.prems(1) by (simp add: run_ffmpeg_def)
      moreover have "filter is_ffmpeg [?w, ?r] = map ?inv (enumerate idx (take 1 (t # texts)))"
        using cmd by simp
      moreover have "1 \<le> Suc i - idx"
        using Cons.prems(2) by simp
      ultimately show ?thesis using here by blast
    next
      case True
      with Cons.prems(2,4) have lt: "Suc idx \<le> i"
        by (cases "i = idx") auto
      have step: "overlay_loop B W idx (t # texts) (working W idx) tr =
                    overlay_loop B W (Suc idx) texts (working W (Suc idx)) (tr @ [?w, ?r])"
        using Inr True Cons.prems(1) by (simp add: run_ffmpeg_def)
      have "calls (tr @ [?w, ?r]) = Suc (Suc idx)"
        using Cons.prems(1) by simp
      from Cons.IH [OF this lt _ Cons.prems(4)] Cons.prems(3)
      obtain oc ext n where ext:
        "overlay_loop B W (Suc idx) texts (working W (Suc idx)) (tr @ [?w, ?r]) =
            Stopped oc ((tr @ [?w, ?r]) @ ext)"
        "n \<le> Suc i - Suc idx"
        "filter is_ffmpeg ext = map ?inv (enumerate (Suc idx) (take n texts))"
        "\<forall>x \<in> set ext. loop_action B W (set texts) x"
        "(\<forall>t \<in> set (take (Suc i - Suc idx) texts). times_ok B t) \<longrightarrow> oc = Returned"
        by auto
      have "overlay_loop B W idx (t # texts) (working W idx) tr = Stopped oc (tr @ ([?w, ?r] @ ext))"
        using step ext(1) by simp
      moreover have "Suc n \<le> Suc i - idx"
        using ext(2) lt by simp
      moreover have "filter is_ffmpeg ([?w, ?r] @ ext) = map ?inv (enumerate idx (take (Suc n) (t # texts)))"
        using ext(3) cmd by simp
      moreover have "\<forall>x \<in> set ([?w, ?r] @ ext). loop_action B W (set (t # texts)) x"
        using ext(4) here loop_action_mono [of "set texts" "set (t # texts)" B W] by auto
      moreover have "(\<forall>t \<in> set (take (Suc i - idx) (t # texts)). times_ok B t) \<longrightarrow> oc = Returned"
        using ext(5) lt by (simp add: Suc_diff_le)
      ultimately show ?thesis by blast
    qed
  qed
qed

lemma calls_steps:
  "calls (concat (map (\<lambda>(i, t). step_actions B W i t) (enumerate idx texts))) = length texts"
  by (induction texts arbitrary: idx) (simp_all add: step_actions_def)

lemma ffmpeg_steps:
  "filter is_ffmpeg (concat (map (\<lambda>(i, t). step_actions B W i t) (enumerate idx texts))) =
     map (\<lambda>(j, t). RunFfmpeg (working W j) (step_output W j) (step_command B W j t)) (enumerate idx texts)"
  by (induction texts arbitrary: idx) (simp_all add: step_actions_def)

lemma steps_loop_action:
  assumes "\<forall>t \<in> set texts. times_ok B t"
    and "x \<in> set (concat (map (\<lambda>(i, t). step_actions B W i t) (enumerate idx texts)))"
  shows "loop_action B W (set texts) x"
  using assms
proof (induction texts arbitrary: idx)
  case Nil
  then show ?case by simp
next
  case (Cons t texts)
  from Cons.prems(1) have "times_ok B t" by simp
  then obtain c where c: "generate_ffmpeg_command B (working W idx) (text_path W idx) t (step_output W idx) = Inr c"
    using generate_times_ok by blast
  then have cmd: "step_command B W idx t = c"
    by (simp add: step_command_def)
  from Cons.prems(2) consider "x \<in> set (step_actions B W idx t)"
    | "x \<in> set (concat (map (\<lambda>(i, t). step_actions B W i t) (enumerate (Suc idx) texts)))"
    by auto
  then show ?case
  proof cases
    case 1
    then consider "x = WriteText (text_path W idx) (overlay_text t)"
      | "x = RunFfmpeg (working W idx) (step_output W idx) c"
      using cmd by (auto simp: step_actions_def)
    then show ?thesis
    proof cases
      case 1
      then show ?thesis by (auto simp: loop_action_def)
    next
      case 2
      have "\<exists>j u. u \<in> set (t # texts) \<and> working W idx = working W j \<and>
                  step_output W idx = step_output W j \<and>
                  generate_ffmpeg_command B (working W idx) (text_path W j) u (step_output W idx) = Inr c"
        using c by (intro exI [of _ idx] exI [of _ t]) simp
      with 2 show ?thesis by (simp add: loop_action_def)
    qed
  next
    case 2
    from Cons.IH [OF _ this] Cons.prems(1) have "loop_action B W (set texts) x"
      by simp
    then show ?thesis
      using loop_action_mono [of "set texts" "set (t # texts)" B W x] by auto
  qed
qed

lemma main_success:
  assumes "parse_text_file B W (text_file a) = Inr texts"
    and "\<forall>t \<in> set texts. times_ok B t"
    and "\<forall>k \<le> Suc (length texts). returncode W k = 0"
  shows "main B W a =
           (Returned,
            Copy (input_video a) (working W 0)
            # concat (map (\<lambda>(i, t). step_actions B W i t) (enumerate 0 texts))
            @ [Copy (working W (length texts)) (output_video a)])"
proof -
  let ?tr0 = "[Copy (input_video a) (working W 0)]"
  have rc0: "returncode W 0 = 0"
    using assms(3) by simp
  have "\<forall>j < length texts. returncode W (calls ?tr0 + j) = 0"
    using assms(3) by simp
  from loop_all_ok [OF assms(2) this, of 0]
  have loop: "overlay_loop B W 0 texts (working W 0) ?tr0 =
           Completed (working W (length texts))
             (?tr0 @ concat (map (\<lambda>(i, t). step_actions B W i t) (enumerate 0 texts)))"
    by simp
  have "returncode W (calls (?tr0 @ concat (map (\<lambda>(i, t). step_actions B W i t) (enumerate 0 texts)))) = 0"
    using assms(3) by (simp add: calls_steps)
  then show ?thesis
    using assms(1) rc0 loop by (simp add: main_def)
qed

lemma main_stops:
  assumes "parse_text_file B W (text_file a) = Inr texts"
    and "i < length texts" and "returncode W (Suc i) \<noteq> 0"
  shows "\<exists>oc ext n. main B W a = (oc, Copy (input_video a) (working W 0) # ext) \<and> n \<le> Suc i \<and>
           filter is_ffmpeg ext =
             map (\<lambda>(j, t). RunFfmpeg (working W j) (step_output W j) (step_command B W j t))
               (enumerate 0 (take n texts)) \<and>
           (\<forall>x \<in> set ext. loop_action B W (set texts) x) \<and>
           (returncode W 0 = 0 \<and> (\<forall>t \<in> set (take (Suc i) texts). times_ok B t) \<longrightarrow> oc = Returned)"
proof (cases "returncode W 0 = 0")
  case False
  then have "main B W a =
      (Raised (RuntimeError ''Failed to copy input video'' (CalledProcessError (returncode W 0))),
       Copy (input_video a) (working W 0) # [])"
    using assms(1) by (simp add: main_def)
  moreover have "filter is_ffmpeg [] =
      map (\<lambda>(j, t). RunFfmpeg (working W j) (step_output W j) (step_command B W j t))
        (enumerate 0 (take 0 texts))"
    by simp
  moreover have "\<forall>x \<in> set []. loop_action B W (set texts) x"
    by simp
  ultimately show ?thesis using False by blast
next
  case True
  let ?tr0 = "[Copy (input_video a) (working W 0)]"
  have "calls ?tr0 = Suc 0" by simp
  from loop_stops [OF this _ _ assms(3), of texts B] assms(2)
  obtain oc ext n where ext:
    "overlay_loop B W 0 texts (working W 0) ?tr0 = Stopped oc (?tr0 @ ext)"
    "n \<le> Suc i"
    "filter is_ffmpeg ext =
       map (\<lambda>(j, t). RunFfmpeg (working W j) (step_output W j) (step_command B W j t))
         (enumerate 0 (take n texts))"
    "\<forall>x \<in> set ext. loop_action B W (set texts) x"
    "(\<forall>t \<in> set (take (Suc i) texts). times_ok B t) \<longrightarrow> oc = Returned"
    by auto
  have m: "main B W a = (oc, Copy (input_video a) (working W 0) # ext)"
    using assms(1) True ext(1) by (simp add: main_def)
  from m ext(2-5) show ?thesis by blast
qed

lemma main_copy_out_fails:
  assumes "parse_text_file B W (text_file a) = Inr texts"
    and "\<forall>t \<in> set texts. times_ok B t"
    and "\<forall>k \<le> length texts. returncode W k = 0"
    and "returncode W (Suc (length texts)) \<noteq> 0"
  shows "fst (main B W a) =
           Raised (RuntimeError ''Failed to save output video''
                     (CalledProcessError (returncode W (Suc (length texts)))))"
proof -
  let ?tr0 = "[Copy (input_video a) (working W 0)]"
  have rc0: "returncode W 0 = 0"
    using assms(3) by simp
  have "\<forall>j < length texts. returncode W (calls ?tr0 + j) = 0"
    using assms(3) by simp
  from loop_all_ok [OF assms(2) this, of 0]
  have loop: "overlay_loop B W 0 texts (working W 0) ?tr0 =
           Completed (working W (length texts))
             (?tr0 @ concat (map (\<lambda>(i, t). step_actions B W i t) (enumerate 0 texts)))"
    by simp
  have "calls (?tr0 @ concat (map (\<lambda>(i, t). step_actions B W i t) (enumerate 0 texts))) = Suc (length texts)"
    by (simp add: calls_steps)
  then show ?thesis
    using assms(1,4) rc0 loop by (simp add: main_def)
qed

lemma main_copy_in_fails:
  assumes "parse_text_file B W (text_file a) = Inr texts" and "returncode W 0 \<noteq> 0"
  shows "main B W a =
           (Raised (RuntimeError ''Failed to copy input video'' (CalledProcessError (returncode W 0))),
            [Copy (input_video a) (working W 0)])"
  using assms by (simp add: main_def)

lemma plain_chars_Cons [simp]: "plain_chars (c # s) \<longleftrightarrow> c \<in> set plain_alphabet \<and> plain_chars s"
  by (simp add: plain_chars_def)

lemma plain_append: "plain a \<Longrightarrow> plain_chars b \<Longrightarrow> plain (a @ b)"
  by (simp add: plain_def)

lemma plain_path_join: "plain a \<Longrightarrow> plain b \<Longrightarrow> plain (path_join a b)"
proof -
  assume a: "plain a" and b: "plain b"
  have "CHR ''/'' \<in> set plain_alphabet"
    by (simp add: plain_alphabet_def)
  then have "plain (a @ ''/'' @ b)"
    using a b by (simp add: plain_def)
  moreover have "plain (a @ b)"
    using a b by (simp add: plain_def)
  ultimately show ?thesis
    using b by (simp add: path_join_def)
qed

lemma plain_tmp_paths:
  assumes "plain (tmpdirname W)"
  shows "plain (text_path W j)" and "plain (step_output W j)" and "plain (working W j)"
proof -
  have lit: "plain_chars ''text_''" "plain_chars ''.txt''" "plain_chars ''/temp_''" "plain_chars ''.mp4''"
    "plain ''temp.mp4''"
    by (simp_all add: plain_def plain_alphabet_def)
  have "plain_chars (''text_'' @ str_of_nat j @ ''.txt'')"
    using lit(1,2) plain_chars_str_of_nat [of j] by (simp only: plain_chars_simps)
  then have "plain (''text_'' @ str_of_nat j @ ''.txt'')"
    by (simp add: plain_def)
  then show "plain (text_path W j)"
    using assms by (simp only: text_path_def plain_path_join)
  have "\<And>k. plain_chars (''/temp_'' @ str_of_nat k @ ''.mp4'')"
    using lit(3,4) plain_chars_str_of_nat by (simp only: plain_chars_simps)
  then show out: "\<And>k. plain (step_output W k)"
    using assms plain_append [of "tmpdirname W"] by (simp only: step_output_def)
  show "plain (working W j)"
    using out assms lit(5) by (cases j) (simp_all add: plain_path_join)
qed

lemma copy_files:
  "tools_behave W \<Longrightarrow> plain src \<Longrightarrow> plain dst \<Longrightarrow> files_written W (Copy src dst) \<subseteq> {realpath W dst}"
  by (simp add: tools_behave_def)

lemma loop_action_files:
  assumes "tools_behave W" and "plain (tmpdirname W)" and "\<forall>t \<in> T. plain (font t)"
    and "\<forall>v. plain (str_of_float B v)" and "loop_action B W T x"
  shows "\<exists>q. prefix (tmpdirname W) q \<and> files_written W x \<subseteq> {realpath W q}"
proof (cases x)
  case (Copy src dst)
  with assms(5) show ?thesis by (simp add: loop_action_def)
next
  case (WriteText path s)
  with assms(5) obtain j where "path = text_path W j"
    by (auto simp: loop_action_def)
  with WriteText prefix_tmp(1) [of W j] show ?thesis by auto
next
  case (RunFfmpeg src dst command)
  with assms(5) obtain j t where jt: "t \<in> T" "src = working W j" "dst = step_output W j"
    "generate_ffmpeg_command B src (text_path W j) t dst = Inr command"
    by (auto simp: loop_action_def)
  from command_template [OF jt(4)] obtain a b where
    cmd: "command = ffmpeg_template src (font t) (text_path W j) (str_of_int (fst (position t)))
                       (str_of_int (snd (position t))) (str_of_int (font_size t))
                       (str_of_float B a) (str_of_float B b) dst"
    by blast
  have "sh_writes W command \<subseteq> {realpath W dst}"
    unfolding cmd
    using assms(1,3,4) jt(1-3) plain_tmp_paths [OF assms(2)] plain_str_of_int
    by (simp add: tools_behave_def)
  with RunFfmpeg jt(3) prefix_tmp(2) [of W j] show ?thesis by auto
qed

lemma loop_action_no_copy: "\<forall>x \<in> set ext. loop_action B W T x \<Longrightarrow> filter is_copy ext = []"
proof (induction ext)
  case Nil
  then show ?case by simp
next
  case (Cons x ext)
  then show ?case by (cases x) (auto simp: loop_action_def)
qed


lemma last_word_append: "CHR '' '' \<notin> set w \<Longrightarrow> last_word (p @ CHR '' '' # w) = w"
proof -
  assume "CHR '' '' \<notin> set w"
  then have "\<And>c. c \<in> set (rev w) \<Longrightarrow> c \<noteq> CHR '' ''"
    by auto
  then have "takeWhile (\<lambda>c. c \<noteq> CHR '' '') (rev w @ CHR '' '' # rev p) =
      rev w @ takeWhile (\<lambda>c. c \<noteq> CHR '' '') (CHR '' '' # rev p)"
    by (rule takeWhile_append2)
  then show ?thesis
    by (simp add: last_word_def)
qed

lemma substituted_none: "CHR ''$'' \<notin> set s \<Longrightarrow> substituted_cps s = []"
  by (induction s) auto

lemma demo_copy_writes:
  assumes "plain src" and "plain dst"
  shows "demo_sh_writes (copy_command src dst) = {demo_realpath dst}"
proof -
  have nospace: "CHR '' '' \<notin> set dst"
    using plain_chars_no_meta(2) [of dst] assms(2) by (simp add: plain_def)
  have eq: "copy_command src dst = (''cp '' @ src) @ CHR '' '' # dst"
    by (simp add: copy_command_def)
  have "last_word ((''cp '' @ src) @ CHR '' '' # dst) = dst"
    by (rule last_word_append [OF nospace])
  then have "last_word (copy_command src dst) = dst"
    by (simp only: eq)
  moreover have "CHR ''$'' \<notin> set (copy_command src dst)"
    using plain_chars_no_meta(3) [of src] plain_chars_no_meta(3) [of dst] assms
    by (simp add: plain_def copy_command_def)
  ultimately show ?thesis
    by (simp add: demo_sh_writes_def substituted_none)
qed

lemma demo_template_writes:
  assumes "plain iv" "plain fnt" "plain tf" "plain x" "plain y" "plain fs" "plain s" "plain e" "plain ov"
  shows "demo_sh_writes (ffmpeg_template iv fnt tf x y fs s e ov) = {demo_realpath ov}"
proof -
  let ?p = "''ffmpeg -i '' @ iv @ '' -filter:v '' @ [CHR 0x22]
     @ ''drawtext=fontfile=/usr/share/fonts/truetype/'' @ fnt @ ''.ttf: textfile=''
     @ [CHR 0x27] @ tf @ [CHR 0x27] @ '': x='' @ x @ '': y='' @ y @ '': fontsize='' @ fs
     @ '': fontcolor=white: enable='' @ [CHR 0x27] @ ''between(t,'' @ s @ '','' @ e @ '')''
     @ [CHR 0x27] @ [CHR 0x22] @ '' -codec:a copy''"
  have nospace: "CHR '' '' \<notin> set ov"
    using plain_chars_no_meta(2) [of ov] assms(9) by (simp add: plain_def)
  have eq: "ffmpeg_template iv fnt tf x y fs s e ov = ?p @ CHR '' '' # ov"
    by (simp add: ffmpeg_template_def)
  have "last_word (?p @ CHR '' '' # ov) = ov"
    by (rule last_word_append [OF nospace])
  then have "last_word (ffmpeg_template iv fnt tf x y fs s e ov) = ov"
    by (simp only: eq)
  moreover have "CHR ''$'' \<notin> set (ffmpeg_template iv fnt tf x y fs s e ov)"
    using assms plain_chars_no_meta(3) by (simp add: plain_def ffmpeg_template_def)
  ultimately show ?thesis
    by (simp add: demo_sh_writes_def substituted_none)
qed

lemma demo_tools_behave: "tools_behave (demo_world f rc tree)"
  by (simp add: tools_behave_def demo_world_def demo_copy_writes demo_template_writes)

lemma demo_fresh:
  assumes "\<not> prefix ''/tmp/tmpab12cd'' (demo_realpath p)"
  shows "fresh_tmp (demo_world f rc tree) p"
proof -
  have "\<And>q. prefix ''/tmp/tmpab12cd'' q \<Longrightarrow> demo_realpath q = q"
  proof -
    fix q :: string
    assume "prefix ''/tmp/tmpab12cd'' q"
    then obtain r where "q = ''/tmp/tmpab12cd'' @ r"
      by (auto simp: prefix_def)
    then show "demo_realpath q = q"
      by (simp add: demo_realpath_def)
  qed
  with assms show ?thesis
    by (auto simp: fresh_tmp_def demo_world_def)
qed

lemma decimal_float_plain: "plain (str_of_float decimal_builtins v)"
proof -
  have "plain_chars ''.0''"
    by (simp add: plain_alphabet_def)
  then show ?thesis
    using plain_append [OF plain_str_of_int [of v]] by (simp add: decimal_builtins_def)
qed

lemma demo_plain:
  "plain ''in.mp4''" "plain ''out.mp4''" "plain ''video.mp4''" "plain ''./video.mp4''"
  "plain (tmpdirname (demo_world f rc tree))" "plain (font hello)" "plain (font bye)"
  by (simp_all add: plain_def plain_alphabet_def demo_world_def hello_def bye_def)



text \<open>
  Claim C1, as the code has it. The subprocess calls of a run are numbered from 0: call 0
  copies the input video, call \<open>i + 1\<close> is the invocation of step \<open>i\<close>, call \<open>N + 1\<close> copies
  to the output path. For a file that parses to \<open>N\<close> entries with valid timestamps, when
  all these calls succeed, \<open>main\<close> returns after the copy of the input video to
  \<open>temp.mp4\<close> in the temporary directory, then for each entry in file order its text file
  and its invocation, then the copy of the last step's output to the output path. There
  are exactly \<open>N\<close> invocations; invocation \<open>i\<close> reads the Working Video Reference
  \<open>working W i\<close>, which is the temporary copy for \<open>i = 0\<close> and the output of invocation
  \<open>i - 1\<close> otherwise. No action of the run writes the file of the input video, provided
  that the output path does not name that file, that no path into the fresh temporary
  directory names it, that the two video paths, the name of the temporary directory, the
  font names and the formatted times are plain, and that the tools behave.
\<close>

theorem C1_chain_of_invocations:
  assumes "parse_text_file B W (text_file a) = Inr texts"
    and "\<forall>t \<in> set texts. times_ok B t"
    and "\<forall>k \<le> Suc (length texts). returncode W k = 0"
  shows "\<exists>tr. main B W a = (Returned, tr) \<and>
           tr = Copy (input_video a) (working W 0)
                # concat (map (\<lambda>(i, t). step_actions B W i t) (enumerate 0 texts))
                @ [Copy (working W (length texts)) (output_video a)] \<and>
           length (filter is_ffmpeg tr) = length texts \<and>
           (\<forall>i < length texts.
              filter is_ffmpeg tr ! i =
                RunFfmpeg (working W i) (step_output W i) (step_command B W i (texts ! i)) \<and>
              generate_ffmpeg_command B (working W i) (text_path W i) (texts ! i) (step_output W i) =
                Inr (step_command B W i (texts ! i))) \<and>
           working W 0 = path_join (tmpdirname W) ''temp.mp4'' \<and>
           (\<forall>i. working W (Suc i) = step_output W i) \<and>
           (tools_behave W \<and> plain (input_video a) \<and> plain (output_video a) \<and>
            plain (tmpdirname W) \<and> (\<forall>t \<in> set texts. plain (font t)) \<and>
            (\<forall>v. plain (str_of_float B v)) \<and> fresh_tmp W (input_video a) \<and>
            realpath W (output_video a) \<noteq> realpath W (input_video a) \<longrightarrow>
              (\<forall>x \<in> set tr. realpath W (input_video a) \<notin> files_written W x))"
proof -
  let ?steps = "concat (map (\<lambda>(i, t). step_actions B W i t) (enumerate 0 texts))"
  let ?tr = "Copy (input_video a) (working W 0) # ?steps @ [Copy (working W (length texts)) (output_video a)]"
  have m: "main B W a = (Returned, ?tr)"
    using main_success [OF assms(1-3)] .
  have f: "filter is_ffmpeg ?tr =
      map (\<lambda>(j, t). RunFfmpeg (working W j) (step_output W j) (step_command B W j t)) (enumerate 0 texts)"
    by (simp add: ffmpeg_steps)
  have len: "length (filter is_ffmpeg ?tr) = length texts"
    by (simp only: f length_map length_enumerate)
  have nth: "\<forall>i < length texts.
              filter is_ffmpeg ?tr ! i =
                RunFfmpeg (working W i) (step_output W i) (step_command B W i (texts ! i)) \<and>
              generate_ffmpeg_command B (working W i) (text_path W i) (texts ! i) (step_output W i) =
                Inr (step_command B W i (texts ! i))"
  proof (intro allI impI conjI)
    fix i assume i: "i < length texts"
    then show "filter is_ffmpeg ?tr ! i =
                RunFfmpeg (working W i) (step_output W i) (step_command B W i (texts ! i))"
      by (simp only: f) (simp add: nth_enumerate_eq)
    from i assms(2) have "times_ok B (texts ! i)"
      by simp
    then obtain c where "generate_ffmpeg_command B (working W i) (text_path W i) (texts ! i) (step_output W i) = Inr c"
      using generate_times_ok by blast
    then show "generate_ffmpeg_command B (working W i) (text_path W i) (texts ! i) (step_output W i) =
                Inr (step_command B W i (texts ! i))"
      by (simp add: step_command_def)
  qed
  have notin: "tools_behave W \<and> plain (input_video a) \<and> plain (output_video a) \<and>
            plain (tmpdirname W) \<and> (\<forall>t \<in> set texts. plain (font t)) \<and>
            (\<forall>v. plain (str_of_float B v)) \<and> fresh_tmp W (input_video a) \<and>
            realpath W (output_video a) \<noteq> realpath W (input_video a) \<longrightarrow>
              (\<forall>x \<in> set ?tr. realpath W (input_video a) \<notin> files_written W x)"
  proof (intro impI ballI)
    fix x
    assume h: "tools_behave W \<and> plain (input_video a) \<and> plain (output_video a) \<and>
            plain (tmpdirname W) \<and> (\<forall>t \<in> set texts. plain (font t)) \<and>
            (\<forall>v. plain (str_of_float B v)) \<and> fresh_tmp W (input_video a) \<and>
            realpath W (output_video a) \<noteq> realpath W (input_video a)"
      and x: "x \<in> set ?tr"
    define steps where "steps = ?steps"
    from x have "x \<in> set (Copy (input_video a) (working W 0) # steps @
                      [Copy (working W (length texts)) (output_video a)])"
      by (simp only: steps_def)
    then consider "x = Copy (input_video a) (working W 0)" | "x \<in> set steps"
      | "x = Copy (working W (length texts)) (output_video a)"
      by auto
    then show "realpath W (input_video a) \<notin> files_written W x"
    proof cases
      case 1
      have "files_written W x \<subseteq> {realpath W (working W 0)}"
        unfolding 1 using h plain_tmp_paths(3) [of W 0] by (intro copy_files) simp_all
      moreover have "realpath W (working W 0) \<noteq> realpath W (input_video a)"
        using h prefix_tmp(3) [of W 0] by (simp add: fresh_tmp_def)
      ultimately show ?thesis by auto
    next
      case 2
      then have "loop_action B W (set texts) x"
        using steps_loop_action [OF assms(2), of x W 0] by (simp add: steps_def)
      from loop_action_files [OF _ _ _ _ this] h
      obtain q where "prefix (tmpdirname W) q" "files_written W x \<subseteq> {realpath W q}"
        by blast
      moreover from this(1) h have "realpath W q \<noteq> realpath W (input_video a)"
        by (simp add: fresh_tmp_def)
      ultimately show ?thesis by auto
    next
      case 3
      have "files_written W x \<subseteq> {realpath W (output_video a)}"
        unfolding 3 using h plain_tmp_paths(3) [of W "length texts"] by (intro copy_files) simp_all
      with h show ?thesis by auto
    qed
  qed
  from m len nth notin show ?thesis
    by simp
qed

lemma demo_parse:
  "parse_text_file decimal_builtins (demo_world two_entries rc tree) p = Inr [hello, bye]"
  by (simp add: demo_simps two_entries_def bye_row_def hello_def bye_def)

lemma demo_times: "times_ok decimal_builtins hello" "times_ok decimal_builtins bye"
  by (simp_all add: times_ok_def hello_def bye_def decimal_simps)

lemmas path_simps = step_actions_def text_path_def step_output_def path_join_def startswith_def
  endswith_def str_of_nat.simps digit_char_def demo_world_def demo_args_def

theorem C1_chain_of_invocations_witness:
  "parse_text_file decimal_builtins (demo_world two_entries (\<lambda>_. 0) []) (text_file demo_args) = Inr [hello, bye]
   \<and> times_ok decimal_builtins hello \<and> times_ok decimal_builtins bye
   \<and> tools_behave (demo_world two_entries (\<lambda>_. 0) [])
   \<and> fresh_tmp (demo_world two_entries (\<lambda>_. 0) []) (input_video demo_args)
   \<and> realpath (demo_world two_entries (\<lambda>_. 0) []) (output_video demo_args) = ''out.mp4''
   \<and> realpath (demo_world two_entries (\<lambda>_. 0) []) (input_video demo_args) = ''in.mp4''
   \<and> fst (main decimal_builtins (demo_world two_entries (\<lambda>_. 0) []) demo_args) = Returned
   \<and> length (filter is_ffmpeg (snd (main decimal_builtins (demo_world two_entries (\<lambda>_. 0) []) demo_args))) = 2
   \<and> realpath (demo_world two_entries (\<lambda>_. 0) []) (input_video demo_args) \<notin>
       \<Union> (files_written (demo_world two_entries (\<lambda>_. 0) [])
             ` set (snd (main decimal_builtins (demo_world two_entries (\<lambda>_. 0) []) demo_args)))"
proof -
  let ?W = "demo_world two_entries (\<lambda>_. 0) []"
  have parse: "parse_text_file decimal_builtins ?W (text_file demo_args) = Inr [hello, bye]"
    by (rule demo_parse)
  have times: "\<forall>t \<in> set [hello, bye]. times_ok decimal_builtins t"
    using demo_times by simp
  have ok: "\<forall>k \<le> Suc (length [hello, bye]). returncode ?W k = 0"
    by (simp add: demo_world_def)
  have paths: "realpath ?W (output_video demo_args) = ''out.mp4''"
    "realpath ?W (input_video demo_args) = ''in.mp4''"
    by (simp_all add: demo_world_def demo_args_def demo_realpath_def)
  have fresh: "fresh_tmp ?W (input_video demo_args)"
    by (rule demo_fresh) (simp add: demo_args_def demo_realpath_def)
  have rest: "tools_behave ?W \<and> plain (input_video demo_args) \<and> plain (output_video demo_args) \<and>
            plain (tmpdirname ?W) \<and> (\<forall>t \<in> set [hello, bye]. plain (font t)) \<and>
            (\<forall>v. plain (str_of_float decimal_builtins v)) \<and> fresh_tmp ?W (input_video demo_args) \<and>
            realpath ?W (output_video demo_args) \<noteq> realpath ?W (input_video demo_args)"
    using demo_tools_behave demo_plain decimal_float_plain fresh
    by (simp add: paths) (simp add: demo_args_def)
  from C1_chain_of_invocations [OF parse times ok] rest obtain tr where
    tr: "main decimal_builtins ?W demo_args = (Returned, tr)"
      "length (filter is_ffmpeg tr) = length [hello, bye]"
      "\<forall>x \<in> set tr. realpath ?W (input_video demo_args) \<notin> files_written ?W x"
    by blast
  from tr(3) have "realpath ?W (input_video demo_args) \<notin> \<Union> (files_written ?W ` set tr)"
    by blast
  with parse demo_times demo_tools_behave fresh paths tr(1,2) show ?thesis
    by simp
qed

lemma clobber_in_parse:
  "parse_text_file decimal_builtins (demo_world (Rows [clobber_in_row]) rc tree) p = Inr [clobber_in]"
  by (simp add: demo_simps clobber_in_row_def clobber_in_def hello_def)

lemma clobber_out_parse:
  "parse_text_file decimal_builtins (demo_world (Rows [clobber_out_row]) rc tree) p = Inr [clobber_out]"
  by (simp add: demo_simps clobber_out_row_def clobber_out_def hello_def)

lemma clobber_commands:
  "generate_ffmpeg_command decimal_builtins iv tf clobber_in ov =
     Inr (ffmpeg_template iv ''$(cp /dev/null in.mp4)'' tf ''10'' ''20'' ''24'' ''0.0'' ''5.0'' ov)"
  "generate_ffmpeg_command decimal_builtins iv tf clobber_out ov =
     Inr (ffmpeg_template iv ''$(cp /dev/null out.mp4)'' tf ''10'' ''20'' ''24'' ''0.0'' ''5.0'' ov)"
  by (simp_all add: generate_ffmpeg_command_def clobber_in_def clobber_out_def hello_def hello_times
      str_of_int_def str_of_nat.simps digit_char_def ffmpeg_template_def)

lemma clobber_writes:
  "demo_sh_writes (ffmpeg_template ''/tmp/tmpab12cd/temp.mp4'' ''$(cp /dev/null in.mp4)''
      ''/tmp/tmpab12cd/text_0.txt'' ''10'' ''20'' ''24'' ''0.0'' ''5.0'' ''/tmp/tmpab12cd/temp_0.mp4'') =
     {''/tmp/tmpab12cd/temp_0.mp4'', ''in.mp4''}"
  "demo_sh_writes (ffmpeg_template ''/tmp/tmpab12cd/temp.mp4'' ''$(cp /dev/null out.mp4)''
      ''/tmp/tmpab12cd/text_0.txt'' ''10'' ''20'' ''24'' ''0.0'' ''5.0'' ''/tmp/tmpab12cd/temp_0.mp4'') =
     {''/tmp/tmpab12cd/temp_0.mp4'', ''out.mp4''}"
  by (simp_all add: demo_sh_writes_def ffmpeg_template_def last_word_def demo_realpath_def)

lemma demo_tmp_paths:
  "working (demo_world f rc tree) 0 = ''/tmp/tmpab12cd/temp.mp4''"
  "text_path (demo_world f rc tree) 0 = ''/tmp/tmpab12cd/text_0.txt''"
  "step_output (demo_world f rc tree) 0 = ''/tmp/tmpab12cd/temp_0.mp4''"
  "step_output (demo_world f rc tree) (Suc 0) = ''/tmp/tmpab12cd/temp_1.mp4''"
  by (simp_all add: path_simps)

text \<open>
  The claim as the specification states it fails. When the output path names the file of
  the input video by another path (\<open>./video.mp4\<close> for \<open>video.mp4\<close>), the last copy writes the
  input video. When a font field holds a command substitution, the shell that runs the
  invocation writes the file it names, here the input video, whatever the output path is.
\<close>

theorem C1_input_overwritten_counterexample:
  "parse_text_file decimal_builtins (demo_world two_entries (\<lambda>_. 0) []) (text_file alias_args) = Inr [hello, bye]
   \<and> fst (main decimal_builtins (demo_world two_entries (\<lambda>_. 0) []) alias_args) = Returned
   \<and> last (snd (main decimal_builtins (demo_world two_entries (\<lambda>_. 0) []) alias_args)) =
       Copy ''/tmp/tmpab12cd/temp_1.mp4'' ''./video.mp4''
   \<and> input_video alias_args = ''video.mp4''
   \<and> realpath (demo_world two_entries (\<lambda>_. 0) []) (input_video alias_args)
       \<in> files_written (demo_world two_entries (\<lambda>_. 0) [])
           (last (snd (main decimal_builtins (demo_world two_entries (\<lambda>_. 0) []) alias_args)))
   \<and> parse_text_file decimal_builtins (demo_world (Rows [clobber_in_row]) (\<lambda>_. 0) []) (text_file demo_args) =
       Inr [clobber_in]
   \<and> fst (main decimal_builtins (demo_world (Rows [clobber_in_row]) (\<lambda>_. 0) []) demo_args) = Returned
   \<and> realpath (demo_world (Rows [clobber_in_row]) (\<lambda>_. 0) []) (output_video demo_args) = ''out.mp4''
   \<and> realpath (demo_world (Rows [clobber_in_row]) (\<lambda>_. 0) []) (input_video demo_args) = ''in.mp4''
   \<and> realpath (demo_world (Rows [clobber_in_row]) (\<lambda>_. 0) []) (input_video demo_args)
       \<in> \<Union> (files_written (demo_world (Rows [clobber_in_row]) (\<lambda>_. 0) [])
             ` set (snd (main decimal_builtins (demo_world (Rows [clobber_in_row]) (\<lambda>_. 0) []) demo_args)))"
proof -
  let ?W = "demo_world two_entries (\<lambda>_. 0) []"
  have parse: "parse_text_file decimal_builtins ?W (text_file alias_args) = Inr [hello, bye]"
    by (rule demo_parse)
  have times: "\<forall>t \<in> set [hello, bye]. times_ok decimal_builtins t"
    using demo_times by simp
  have ok: "\<forall>k \<le> Suc (length [hello, bye]). returncode ?W k = 0"
    by (simp add: demo_world_def)
  have m: "main decimal_builtins ?W alias_args =
      (Returned,
       Copy (input_video alias_args) (working ?W 0)
       # concat (map (\<lambda>(i, t). step_actions decimal_builtins ?W i t) (enumerate 0 [hello, bye]))
       @ [Copy (working ?W (length [hello, bye])) (output_video alias_args)])"
    by (rule main_success [OF parse times ok])
  have f: "fst (main decimal_builtins ?W alias_args) = Returned"
    by (simp add: m)
  have l0: "last (snd (main decimal_builtins ?W alias_args)) =
      Copy (step_output ?W (Suc 0)) (output_video alias_args)"
    by (simp add: m)
  have outp: "output_video alias_args = ''./video.mp4''"
    by (simp add: alias_args_def)
  have l: "last (snd (main decimal_builtins ?W alias_args)) =
      Copy ''/tmp/tmpab12cd/temp_1.mp4'' ''./video.mp4''"
    by (simp only: l0 outp demo_tmp_paths)
  have p: "plain ''/tmp/tmpab12cd/temp_1.mp4''"
    by (simp add: plain_def plain_alphabet_def)
  have w: "files_written ?W (Copy ''/tmp/tmpab12cd/temp_1.mp4'' ''./video.mp4'') = {''video.mp4''}"
    using demo_copy_writes [OF p demo_plain(4)] by (simp add: demo_world_def demo_realpath_def)
  have inp: "input_video alias_args = ''video.mp4''"
    "realpath ?W (input_video alias_args) = ''video.mp4''"
    by (simp_all add: alias_args_def demo_world_def demo_realpath_def)
  let ?V = "demo_world (Rows [clobber_in_row]) (\<lambda>_. 0) []"
  have parse2: "parse_text_file decimal_builtins ?V (text_file demo_args) = Inr [clobber_in]"
    by (rule clobber_in_parse)
  have times2: "\<forall>t \<in> set [clobber_in]. times_ok decimal_builtins t"
    by (simp add: times_ok_def clobber_in_def hello_def decimal_simps)
  have ok2: "\<forall>k \<le> Suc (length [clobber_in]). returncode ?V k = 0"
    by (simp add: demo_world_def)
  have m2: "main decimal_builtins ?V demo_args =
      (Returned,
       Copy (input_video demo_args) (working ?V 0)
       # concat (map (\<lambda>(i, t). step_actions decimal_builtins ?V i t) (enumerate 0 [clobber_in]))
       @ [Copy (working ?V (length [clobber_in])) (output_video demo_args)])"
    by (rule main_success [OF parse2 times2 ok2])
  have step: "RunFfmpeg (working ?V 0) (step_output ?V 0) (step_command decimal_builtins ?V 0 clobber_in)
                \<in> set (snd (main decimal_builtins ?V demo_args))"
    by (simp add: m2 step_actions_def)
  have sc: "step_command decimal_builtins ?V 0 clobber_in =
      ffmpeg_template (working ?V 0) ''$(cp /dev/null in.mp4)'' (text_path ?V 0)
        ''10'' ''20'' ''24'' ''0.0'' ''5.0'' (step_output ?V 0)"
    by (simp add: step_command_def clobber_commands del: working.simps)
  have shw: "sh_writes ?V = demo_sh_writes"
    by (simp add: demo_world_def)
  have "files_written ?V (RunFfmpeg (working ?V 0) (step_output ?V 0) (step_command decimal_builtins ?V 0 clobber_in)) =
          {''/tmp/tmpab12cd/temp_0.mp4'', ''in.mp4''}"
    by (simp only: files_written.simps sc demo_tmp_paths shw clobber_writes)
  with step have hit: "''in.mp4'' \<in> \<Union> (files_written ?V ` set (snd (main decimal_builtins ?V demo_args)))"
    by blast
  have paths2: "realpath ?V (output_video demo_args) = ''out.mp4''"
    "realpath ?V (input_video demo_args) = ''in.mp4''"
    by (simp_all add: demo_world_def demo_args_def demo_realpath_def)
  have f2: "fst (main decimal_builtins ?V demo_args) = Returned"
    by (simp add: m2)
  have c5: "realpath ?W (input_video alias_args)
       \<in> files_written ?W (last (snd (main decimal_builtins ?W alias_args)))"
    unfolding l w inp(2) by simp
  have c10: "realpath ?V (input_video demo_args)
       \<in> \<Union> (files_written ?V ` set (snd (main decimal_builtins ?V demo_args)))"
    unfolding paths2(2) by (rule hit)
  show ?thesis
    by (intro conjI) (fact parse f l inp(1) c5 parse2 f2 paths2 c10)+
qed

lemma demo_parse3:
  "parse_text_file decimal_builtins (demo_world three_entries rc tree) p = Inr [hello, bye, hello]"
  by (simp add: demo_simps three_entries_def bye_row_def hello_def bye_def)

lemma demo_parse_one_field:
  "parse_text_file decimal_builtins (demo_world (Rows [[''one field'']]) rc tree) p =
     Inl (RuntimeError ''Error parsing text file'' (UnpackError 1))"
  by (simp add: demo_simps)

lemma main_first_step_fails:
  assumes "parse_text_file B W (text_file a) = Inr (t # texts)"
    and "returncode W 0 = 0" and "returncode W (Suc 0) \<noteq> 0"
    and "generate_ffmpeg_command B (working W 0) (text_path W 0) t (step_output W 0) = Inr c"
  shows "main B W a =
           (Returned,
            [Copy (input_video a) (working W 0), WriteText (text_path W 0) (overlay_text t),
             RunFfmpeg (working W 0) (step_output W 0) c])"
  using assms by (simp add: main_def run_ffmpeg_def Let_def)

lemma main_bad_timestamp:
  assumes "parse_text_file B W (text_file a) = Inr (t # texts)"
    and "returncode W 0 = 0"
    and "generate_ffmpeg_command B (working W 0) (text_path W 0) t (step_output W 0) = Inl e"
  shows "main B W a =
           (Raised e, [Copy (input_video a) (working W 0), WriteText (text_path W 0) (overlay_text t)])"
  using assms by (simp add: main_def Let_def)

lemma demo_step_fails:
  "fst (main decimal_builtins (demo_world three_entries (fails_at 2) []) demo_args) = Returned"
  "length (filter is_ffmpeg (snd (main decimal_builtins (demo_world three_entries (fails_at 2) []) demo_args))) = 2"
proof -
  let ?W = "demo_world three_entries (fails_at 2) []"
  obtain c0 where c0: "generate_ffmpeg_command decimal_builtins (working ?W 0) (text_path ?W 0) hello (step_output ?W 0) = Inr c0"
    using generate_times_ok demo_times(1) by blast
  obtain c1 where c1: "generate_ffmpeg_command decimal_builtins (step_output ?W 0) (text_path ?W 1) bye (step_output ?W 1) = Inr c1"
    using generate_times_ok demo_times(2) by blast
  have rc: "returncode ?W 0 = 0" "returncode ?W (Suc 0) = 0" "returncode ?W (Suc (Suc 0)) = 1"
    by (simp_all add: demo_world_def fails_at_def)
  have m: "main decimal_builtins ?W demo_args =
      (Returned,
       [Copy (input_video demo_args) (working ?W 0),
        WriteText (text_path ?W 0) (overlay_text hello),
        RunFfmpeg (working ?W 0) (step_output ?W 0) c0,
        WriteText (text_path ?W 1) (overlay_text bye),
        RunFfmpeg (step_output ?W 0) (step_output ?W 1) c1])"
    using c0 c1 rc by (simp add: main_def demo_parse3 run_ffmpeg_def Let_def)
  show "fst (main decimal_builtins ?W demo_args) = Returned"
    by (simp add: m)
  show "length (filter is_ffmpeg (snd (main decimal_builtins ?W demo_args))) = 2"
    by (simp add: m)
qed

text \<open>
  Claim C2, as the code has it. When the invocation of step \<open>i\<close> (subprocess call
  \<open>i + 1\<close>) fails, the invocations that the run performs are those of the first \<open>n\<close> steps
  for some \<open>n \<le> i + 1\<close>, in order: no step after \<open>i\<close> is invoked. The only copy of the run
  is the copy of the input video into the temporary directory: nothing is copied to the
  output path. No action of the run writes the file of the output path, provided that
  no path into the fresh temporary directory names it, that the input path, the name of
  the temporary directory, the font names and the formatted times are plain, and that
  the tools behave.
\<close>

theorem C2_failed_step_stops_run:
  assumes "parse_text_file B W (text_file a) = Inr texts"
    and "i < length texts" and "returncode W (Suc i) \<noteq> 0"
  shows "(\<exists>n \<le> Suc i.
            filter is_ffmpeg (snd (main B W a)) =
              map (\<lambda>(j, t). RunFfmpeg (working W j) (step_output W j) (step_command B W j t))
                (enumerate 0 (take n texts)))
         \<and> length (filter is_ffmpeg (snd (main B W a))) \<le> Suc i
         \<and> filter is_copy (snd (main B W a)) = [Copy (input_video a) (working W 0)]
         \<and> (tools_behave W \<and> plain (input_video a) \<and> plain (tmpdirname W) \<and>
            (\<forall>t \<in> set texts. plain (font t)) \<and> (\<forall>v. plain (str_of_float B v)) \<and>
            fresh_tmp W (output_video a) \<longrightarrow>
              (\<forall>x \<in> set (snd (main B W a)). realpath W (output_video a) \<notin> files_written W x))"
proof -
  from main_stops [OF assms] obtain oc ext n where r:
    "main B W a = (oc, Copy (input_video a) (working W 0) # ext)" "n \<le> Suc i"
    "filter is_ffmpeg ext =
       map (\<lambda>(j, t). RunFfmpeg (working W j) (step_output W j) (step_command B W j t))
         (enumerate 0 (take n texts))"
    "\<forall>x \<in> set ext. loop_action B W (set texts) x"
    by blast
  have tr: "snd (main B W a) = Copy (input_video a) (working W 0) # ext"
    by (simp add: r(1))
  have inv: "filter is_ffmpeg (snd (main B W a)) =
       map (\<lambda>(j, t). RunFfmpeg (working W j) (step_output W j) (step_command B W j t))
         (enumerate 0 (take n texts))"
    by (simp add: tr r(3))
  have len: "length (filter is_ffmpeg (snd (main B W a))) \<le> Suc i"
    using r(2) by (simp only: inv length_map length_enumerate) simp
  have cp: "filter is_copy (snd (main B W a)) = [Copy (input_video a) (working W 0)]"
    using loop_action_no_copy [OF r(4)] by (simp add: tr)
  have notin: "tools_behave W \<and> plain (input_video a) \<and> plain (tmpdirname W) \<and>
            (\<forall>t \<in> set texts. plain (font t)) \<and> (\<forall>v. plain (str_of_float B v)) \<and>
            fresh_tmp W (output_video a) \<longrightarrow>
              (\<forall>x \<in> set (snd (main B W a)). realpath W (output_video a) \<notin> files_written W x)"
  proof (intro impI ballI)
    fix x
    assume h: "tools_behave W \<and> plain (input_video a) \<and> plain (tmpdirname W) \<and>
            (\<forall>t \<in> set texts. plain (font t)) \<and> (\<forall>v. plain (str_of_float B v)) \<and>
            fresh_tmp W (output_video a)"
      and "x \<in> set (snd (main B W a))"
    then consider "x = Copy (input_video a) (working W 0)" | "x \<in> set ext"
      by (auto simp: tr)
    then show "realpath W (output_video a) \<notin> files_written W x"
    proof cases
      case 1
      have "files_written W x \<subseteq> {realpath W (working W 0)}"
        unfolding 1 using h plain_tmp_paths(3) [of W 0] by (intro copy_files) simp_all
      moreover have "realpath W (working W 0) \<noteq> realpath W (output_video a)"
        using h prefix_tmp(3) [of W 0] by (simp add: fresh_tmp_def)
      ultimately show ?thesis by auto
    next
      case 2
      with r(4) have "loop_action B W (set texts) x"
        by blast
      from loop_action_files [OF _ _ _ _ this] h
      obtain q where "prefix (tmpdirname W) q" "files_written W x \<subseteq> {realpath W q}"
        by blast
      moreover from this(1) h have "realpath W q \<noteq> realpath W (output_video a)"
        by (simp add: fresh_tmp_def)
      ultimately show ?thesis by auto
    qed
  qed
  from r(2) inv len cp notin show ?thesis
    by blast
qed

theorem C2_failed_step_stops_run_witness:
  "parse_text_file decimal_builtins (demo_world three_entries (fails_at 2) []) (text_file demo_args) =
     Inr [hello, bye, hello]
   \<and> returncode (demo_world three_entries (fails_at 2) []) (Suc 1) = 1
   \<and> tools_behave (demo_world three_entries (fails_at 2) [])
   \<and> fresh_tmp (demo_world three_entries (fails_at 2) []) (output_video demo_args)
   \<and> length (filter is_ffmpeg (snd (main decimal_builtins (demo_world three_entries (fails_at 2) []) demo_args))) = 2
   \<and> filter is_copy (snd (main decimal_builtins (demo_world three_entries (fails_at 2) []) demo_args)) =
       [Copy ''in.mp4'' ''/tmp/tmpab12cd/temp.mp4'']
   \<and> realpath (demo_world three_entries (fails_at 2) []) (output_video demo_args) \<notin>
       \<Union> (files_written (demo_world three_entries (fails_at 2) [])
             ` set (snd (main decimal_builtins (demo_world three_entries (fails_at 2) []) demo_args)))"
proof -
  let ?W = "demo_world three_entries (fails_at 2) []"
  have parse: "parse_text_file decimal_builtins ?W (text_file demo_args) = Inr [hello, bye, hello]"
    by (rule demo_parse3)
  have i: "1 < length [hello, bye, hello]"
    by simp
  have rc: "returncode ?W (Suc 1) = 1"
    by (simp add: demo_world_def fails_at_def)
  then have fails: "returncode ?W (Suc 1) \<noteq> 0"
    by simp
  have fresh: "fresh_tmp ?W (output_video demo_args)"
    by (rule demo_fresh) (simp add: demo_args_def demo_realpath_def)
  have rest: "tools_behave ?W \<and> plain (input_video demo_args) \<and> plain (tmpdirname ?W) \<and>
            (\<forall>t \<in> set [hello, bye, hello]. plain (font t)) \<and>
            (\<forall>v. plain (str_of_float decimal_builtins v)) \<and> fresh_tmp ?W (output_video demo_args)"
    using demo_tools_behave demo_plain decimal_float_plain fresh
    by (simp add: demo_args_def)
  from C2_failed_step_stops_run [OF parse i fails] rest
  have cp: "filter is_copy (snd (main decimal_builtins ?W demo_args)) =
              [Copy (input_video demo_args) (working ?W 0)]"
    and nw: "\<forall>x \<in> set (snd (main decimal_builtins ?W demo_args)).
              realpath ?W (output_video demo_args) \<notin> files_written ?W x"
    by blast+
  have cp': "filter is_copy (snd (main decimal_builtins ?W demo_args)) =
       [Copy ''in.mp4'' ''/tmp/tmpab12cd/temp.mp4'']"
    unfolding cp demo_tmp_paths by (simp add: demo_args_def)
  from nw have nw': "realpath ?W (output_video demo_args) \<notin>
       \<Union> (files_written ?W ` set (snd (main decimal_builtins ?W demo_args)))"
    by blast
  show ?thesis
    by (intro conjI) (fact parse rc demo_tools_behave fresh demo_step_fails(2) cp' nw')+
qed

text \<open>
  The claim as the specification states it fails for an entry whose font field holds a
  command substitution: the row parses, the invocation of step 0 fails and \<open>main\<close>
  returns without a copy to the output path, but the shell that ran the invocation has
  written the file of the output path.
\<close>

theorem C2_output_written_counterexample:
  "parse_text_file decimal_builtins (demo_world (Rows [clobber_out_row]) (fails_at 1) []) (text_file demo_args) =
     Inr [clobber_out]
   \<and> returncode (demo_world (Rows [clobber_out_row]) (fails_at 1) []) 1 = 1
   \<and> fst (main decimal_builtins (demo_world (Rows [clobber_out_row]) (fails_at 1) []) demo_args) = Returned
   \<and> length (snd (main decimal_builtins (demo_world (Rows [clobber_out_row]) (fails_at 1) []) demo_args)) = 3
   \<and> realpath (demo_world (Rows [clobber_out_row]) (fails_at 1) []) (output_video demo_args) = ''out.mp4''
   \<and> ''out.mp4'' \<in> files_written (demo_world (Rows [clobber_out_row]) (fails_at 1) [])
        (last (snd (main decimal_builtins (demo_world (Rows [clobber_out_row]) (fails_at 1) []) demo_args)))"
proof -
  let ?W = "demo_world (Rows [clobber_out_row]) (fails_at 1) []"
  let ?c = "ffmpeg_template (working ?W 0) ''$(cp /dev/null out.mp4)'' (text_path ?W 0)
        ''10'' ''20'' ''24'' ''0.0'' ''5.0'' (step_output ?W 0)"
  have parse: "parse_text_file decimal_builtins ?W (text_file demo_args) = Inr [clobber_out]"
    by (rule clobber_out_parse)
  have rc: "returncode ?W 0 = 0" "returncode ?W (Suc 0) \<noteq> 0" "returncode ?W 1 = 1"
    by (simp_all add: demo_world_def fails_at_def)
  have gen: "generate_ffmpeg_command decimal_builtins (working ?W 0) (text_path ?W 0) clobber_out
               (step_output ?W 0) = Inr ?c"
    by (rule clobber_commands(2))
  have m: "main decimal_builtins ?W demo_args =
           (Returned,
            [Copy (input_video demo_args) (working ?W 0), WriteText (text_path ?W 0) (overlay_text clobber_out),
             RunFfmpeg (working ?W 0) (step_output ?W 0) ?c])"
    by (rule main_first_step_fails [OF parse rc(1,2) gen])
  have f: "fst (main decimal_builtins ?W demo_args) = Returned"
    by (simp only: m fst_conv)
  have n: "length (snd (main decimal_builtins ?W demo_args)) = 3"
    by (simp only: m snd_conv) simp
  have l: "last (snd (main decimal_builtins ?W demo_args)) = RunFfmpeg (working ?W 0) (step_output ?W 0) ?c"
    by (simp only: m snd_conv) simp
  have shw: "sh_writes ?W = demo_sh_writes"
    by (simp add: demo_world_def)
  have w: "files_written ?W (RunFfmpeg (working ?W 0) (step_output ?W 0) ?c) =
          {''/tmp/tmpab12cd/temp_0.mp4'', ''out.mp4''}"
    by (simp only: files_written.simps demo_tmp_paths shw clobber_writes)
  have out: "realpath ?W (output_video demo_args) = ''out.mp4''"
    by (simp add: demo_world_def demo_args_def demo_realpath_def)
  have hit: "''out.mp4'' \<in> files_written ?W (last (snd (main decimal_builtins ?W demo_args)))"
    unfolding l w by simp
  show ?thesis
    by (intro conjI) (fact parse rc(3) f n out hit)+
qed

lemma main_step_fails_returns:
  assumes "parse_text_file B W (text_file a) = Inr texts"
    and "\<forall>t \<in> set (take (Suc i) texts). times_ok B t"
    and "returncode W 0 = 0" and "i < length texts" and "returncode W (Suc i) \<noteq> 0"
  shows "fst (main B W a) = Returned"
  using main_stops [OF assms(1,4,5)] assms(2,3) by auto

lemma main_exit_status:
  "(parse_text_file B W (text_file a) = Inl e \<longrightarrow> exit_status (fst (main B W a)) = 0)
   \<and> (parse_text_file B W (text_file a) = Inr texts \<and>
       (\<forall>t \<in> set (take (Suc i) texts). times_ok B t) \<and>
       returncode W 0 = 0 \<and> i < length texts \<and> returncode W (Suc i) \<noteq> 0 \<longrightarrow>
         exit_status (fst (main B W a)) = 0)
   \<and> (parse_text_file B W (text_file a) = Inr texts \<and> (\<forall>t \<in> set texts. times_ok B t) \<and>
       (\<forall>k \<le> Suc (length texts). returncode W k = 0) \<longrightarrow>
         exit_status (fst (main B W a)) = 0)
   \<and> (parse_text_file B W (text_file a) = Inr texts \<and> returncode W 0 \<noteq> 0 \<longrightarrow>
         exit_status (fst (main B W a)) = 1)
   \<and> (parse_text_file B W (text_file a) = Inr texts \<and> (\<forall>t \<in> set texts. times_ok B t) \<and>
       (\<forall>k \<le> length texts. returncode W k = 0) \<and> returncode W (Suc (length texts)) \<noteq> 0 \<longrightarrow>
         exit_status (fst (main B W a)) = 1)"
proof (intro conjI impI)
  assume "parse_text_file B W (text_file a) = Inl e"
  then show "exit_status (fst (main B W a)) = 0"
    by (simp add: main_parse_error)
next
  assume "parse_text_file B W (text_file a) = Inr texts \<and>
       (\<forall>t \<in> set (take (Suc i) texts). times_ok B t) \<and>
       returncode W 0 = 0 \<and> i < length texts \<and> returncode W (Suc i) \<noteq> 0"
  then show "exit_status (fst (main B W a)) = 0"
    using main_step_fails_returns [of B W a texts i] by simp
next
  assume "parse_text_file B W (text_file a) = Inr texts \<and> (\<forall>t \<in> set texts. times_ok B t) \<and>
       (\<forall>k \<le> Suc (length texts). returncode W k = 0)"
  then show "exit_status (fst (main B W a)) = 0"
    using main_success [of B W a texts] by simp
next
  assume "parse_text_file B W (text_file a) = Inr texts \<and> returncode W 0 \<noteq> 0"
  then show "exit_status (fst (main B W a)) = 1"
    using main_copy_in_fails [of B W a texts] by simp
next
  assume "parse_text_file B W (text_file a) = Inr texts \<and> (\<forall>t \<in> set texts. times_ok B t) \<and>
       (\<forall>k \<le> length texts. returncode W k = 0) \<and> returncode W (Suc (length texts)) \<noteq> 0"
  then show "exit_status (fst (main B W a)) = 1"
    using main_copy_out_fails [of B W a texts] by simp
qed

lemma bad_time_parse:
  "parse_text_file decimal_builtins (demo_world (Rows [bad_time_row]) rc tree) p =
     Inr [\<lparr> start_time = ''00:00:01'', end_time = ''1:x'', overlay_text = ''Hi'', position = (1, 2),
            font = ''Arial'', font_size = 10 \<rparr>]"
  by (simp add: demo_simps bad_time_row_def)

lemma bad_time_command:
  "generate_ffmpeg_command decimal_builtins iv tf
     \<lparr> start_time = ''00:00:01'', end_time = ''1:x'', overlay_text = ''Hi'', position = (1, 2),
       font = ''Arial'', font_size = 10 \<rparr> ov = Inl (FloatValueError ''x'')"
  by (simp add: generate_ffmpeg_command_def decimal_simps)

text \<open>
  Claim C3 fails on the code. A file whose only row has one field does not parse, and a
  run whose second step fails has invoked the tool twice: \<open>main\<close> catches the
  \<open>RuntimeError\<close>, logs it and returns, and the exit status is 0. The other failures of the
  same \<open>main\<close> end with status 1: a copy that fails raises \<open>RuntimeError\<close>, and a row whose
  timestamp is not numeric lets \<open>ValueError\<close> through.
\<close>

theorem C3_failures_exit_zero:
  "parse_text_file decimal_builtins (demo_world (Rows [[''one field'']]) (\<lambda>_. 0) []) (text_file demo_args) =
     Inl (RuntimeError ''Error parsing text file'' (UnpackError 1))
   \<and> exit_status (fst (main decimal_builtins (demo_world (Rows [[''one field'']]) (\<lambda>_. 0) []) demo_args)) = 0
   \<and> returncode (demo_world three_entries (fails_at 2) []) 2 = 1
   \<and> length (filter is_ffmpeg (snd (main decimal_builtins (demo_world three_entries (fails_at 2) []) demo_args))) = 2
   \<and> exit_status (fst (main decimal_builtins (demo_world three_entries (fails_at 2) []) demo_args)) = 0
   \<and> returncode (demo_world two_entries (fails_at 0) []) 0 = 1
   \<and> fst (main decimal_builtins (demo_world two_entries (fails_at 0) []) demo_args) =
       Raised (RuntimeError ''Failed to copy input video'' (CalledProcessError 1))
   \<and> exit_status (fst (main decimal_builtins (demo_world two_entries (fails_at 0) []) demo_args)) = 1
   \<and> fst (main decimal_builtins (demo_world (Rows [bad_time_row]) (\<lambda>_. 0) []) demo_args) =
       Raised (FloatValueError ''x'')
   \<and> exit_status (fst (main decimal_builtins (demo_world (Rows [bad_time_row]) (\<lambda>_. 0) []) demo_args)) = 1"
proof -
  have c2: "exit_status (fst (main decimal_builtins (demo_world (Rows [[''one field'']]) (\<lambda>_. 0) []) demo_args)) = 0"
    using main_parse_error [OF demo_parse_one_field [of "\<lambda>_. 0" "[]" "text_file demo_args"]] by simp
  have c3: "returncode (demo_world three_entries (fails_at 2) []) 2 = 1"
    by (simp add: demo_world_def fails_at_def)
  have c5: "exit_status (fst (main decimal_builtins (demo_world three_entries (fails_at 2) []) demo_args)) = 0"
    by (simp add: demo_step_fails(1))
  let ?V = "demo_world two_entries (fails_at 0) []"
  have c6: "returncode ?V 0 = 1"
    by (simp add: demo_world_def fails_at_def)
  then have "returncode ?V 0 \<noteq> 0"
    by simp
  from main_copy_in_fails [OF demo_parse [of "fails_at 0" "[]" "text_file demo_args"] this]
  have c7: "fst (main decimal_builtins ?V demo_args) =
       Raised (RuntimeError ''Failed to copy input video'' (CalledProcessError 1))"
    by (simp add: c6)
  have c8: "exit_status (fst (main decimal_builtins ?V demo_args)) = 1"
    by (simp add: c7)
  let ?U = "demo_world (Rows [bad_time_row]) (\<lambda>_. 0) []"
  have "returncode ?U 0 = 0"
    by (simp add: demo_world_def)
  from main_bad_timestamp [OF bad_time_parse [of "\<lambda>_. 0" "[]" "text_file demo_args"] this bad_time_command]
  have c9: "fst (main decimal_builtins ?U demo_args) = Raised (FloatValueError ''x'')"
    by simp
  have c10: "exit_status (fst (main decimal_builtins ?U demo_args)) = 1"
    by (simp add: c9)
  show ?thesis
    by (intro conjI)
       (fact demo_parse_one_field [of "\<lambda>_. 0" "[]" "text_file demo_args"] c2 c3 demo_step_fails(2) c5 c6 c7 c8 c9 c10)+
qed

section \<open>The preview script\<close>

lemma runs_simps [simp]:
  "runs [] = 0"
  "runs (tr @ tr') = runs tr + runs tr'"
  "runs (Mkdir d # tr) = runs tr"
  "runs (Subprocess c # tr) = Suc (runs tr)"
  "runs (PrintFailed n e # tr) = runs tr"
  "runs (PrintCreated n # tr) = runs tr"
  by (simp_all add: runs_def)







end
